theory Spec2Isabelle
  imports Complex_Main
begin

section \<open>BarGen: code generators and carousel controllers\<close>

text \<open>
  A shallow embedding of \<^verbatim>\<open>js/generators/generators.js\<close>,
  \<^verbatim>\<open>js/controllers/dm.controller.js\<close> and \<^verbatim>\<open>js/controllers/gs1.controller.js\<close>.
  JavaScript strings are lists of characters; \<^verbatim>\<open>undefined\<close> and the empty string, which
  the code only ever tells apart from non-empty strings (\<^verbatim>\<open>!x\<close>, \<^verbatim>\<open>x || y\<close>), are both the
  empty list. Gram weights, discounts and decimal positions are natural numbers, an
  optional one being \<open>None\<close> when the property is absent.
\<close>

subsection \<open>Strings and decimal digits\<close>

definition is_digit :: "char \<Rightarrow> bool" where
  "is_digit c = (c \<in> set ''0123456789'')"

text \<open>The regular expression \<^verbatim>\<open>/^\d+$/\<close>: at least one character, decimal digits only.\<close>

definition all_digits :: "string \<Rightarrow> bool" where
  "all_digits s = (s \<noteq> [] \<and> list_all is_digit s)"

text \<open>\<^verbatim>\<open>s.replace(/\D/g, '')\<close>: every character that is not a decimal digit is removed.\<close>

definition strip_non_digits :: "string \<Rightarrow> string" where
  "strip_non_digits s = filter is_digit s"

text \<open>The value of a decimal digit, as \<^verbatim>\<open>parseInt\<close> reads it.\<close>

definition digit_val :: "char \<Rightarrow> nat" where
  "digit_val c = of_char c - 48"

definition digit_char :: "nat \<Rightarrow> char" where
  "digit_char n = ''0123456789'' ! (n mod 10)"

text \<open>
  \<^verbatim>\<open>String(n)\<close> for a non-negative integer \<open>n\<close>: its decimal numeral (JavaScript prints
  an exponent from \<open>10\<^sup>2\<^sup>1\<close> on).
\<close>

function show_nat :: "nat \<Rightarrow> string" where
  "show_nat n = (if n < 10 then [digit_char n] else show_nat (n div 10) @ [digit_char n])"
  by pat_completeness auto
termination
  by (relation "measure id") auto

declare show_nat.simps [simp del]

text \<open>
  \<^verbatim>\<open>String.prototype.trim\<close>: white space is removed at both ends. The white-space
  characters with a code below 256 are tab, line feed, vertical tab, form feed, carriage
  return, space and the no-break space.
\<close>

definition is_space :: "char \<Rightarrow> bool" where
  "is_space c = (of_char c \<in> {9, 10, 11, 12, 13, 32, 160 :: nat})"

definition trim :: "string \<Rightarrow> string" where
  "trim s = rev (dropWhile is_space (rev (dropWhile is_space s)))"

subsection \<open>Utilities the generators call\<close>

text \<open>
  Modelled from the spec: \<^verbatim>\<open>Utils.padZeros(value, width)\<close> is defined in
  \<^verbatim>\<open>js/app/utils.js\<close>, which the sources do not include. The specification
  writes it \<^verbatim>\<open>value.padLeft(width, '0')\<close>: zeros are put in front until the string has
  \<open>width\<close> characters, and a longer string is left as it is.
\<close>

definition padZeros :: "string \<Rightarrow> nat \<Rightarrow> string" where
  "padZeros s width = replicate (width - length s) CHR ''0'' @ s"

datatype error = InvalidInput | GoodsIdRequired | InvalidType | TypeError

text \<open>
  Modelled from the spec: \<^verbatim>\<open>Utils.calcControlEAN13(digits12)\<close>, also of
  \<^verbatim>\<open>js/app/utils.js\<close>. The specification (4.1): a weighted sum modulo 10 over 12 numeric
  characters, odd positions (counted from 1 at the left) with weight 1 and even positions
  with weight 3; the digit is \<^verbatim>\<open>(10 - (sum mod 10)) mod 10\<close>; any other input fails with
  \<^verbatim>\<open>InvalidInput\<close>.
\<close>

fun weighted_sum :: "nat \<Rightarrow> string \<Rightarrow> nat" where
  "weighted_sum i [] = 0"
| "weighted_sum i (c # cs) =
     (if even i then 1 else 3) * digit_val c + weighted_sum (Suc i) cs"

definition calcControlEAN13 :: "string \<Rightarrow> error + nat" where
  "calcControlEAN13 s =
     (if length s = 12 \<and> all_digits s
      then Inr ((10 - weighted_sum 0 s mod 10) mod 10)
      else Inl InvalidInput)"

subsection \<open>generateWeightBarcode\<close>

record weight_barcode =
  wb_code :: string
  wb_format :: string
  wb_weight :: nat
  wb_plu :: string
  wb_prefix :: string
  wb_discount :: "nat option"

text \<open>
  \<^verbatim>\<open>Utils.calcControlCore\<close> (again of \<^verbatim>\<open>js/app/utils.js\<close>) is the parameter
  \<open>calcControlCore\<close>: the specification does not give its weights.
  \<^verbatim>\<open>discount || 0\<close> is \<open>0\<close> for an absent discount.
\<close>

definition generateWeightBarcode ::
  "(string \<Rightarrow> nat) \<Rightarrow> string \<Rightarrow> string \<Rightarrow> nat \<Rightarrow> nat option \<Rightarrow> error + weight_barcode" where
  "generateWeightBarcode calcControlCore prefix plu weight discount =
     (if prefix = ''77'' then
        (let code = ''77'' @ padZeros plu 6 @ padZeros (show_nat weight) 7;
             ctrl = ''0''
         in Inr \<lparr>wb_code = code @ ctrl, wb_format = ''CODE128'', wb_weight = weight,
                 wb_plu = plu, wb_prefix = prefix, wb_discount = discount\<rparr>)
      else if prefix = ''49'' then
        (let code = ''49'' @ padZeros plu 9
                 @ padZeros (show_nat (case discount of None \<Rightarrow> 0 | Some d \<Rightarrow> d)) 2
                 @ padZeros (show_nat weight) 5;
             ctrl = show_nat (calcControlCore code)
         in Inr \<lparr>wb_code = code @ ctrl, wb_format = ''CODE128'', wb_weight = weight,
                 wb_plu = plu, wb_prefix = prefix, wb_discount = discount\<rparr>)
      else
        (let code = ''22'' @ padZeros plu 5 @ padZeros (show_nat weight) 5
         in case calcControlEAN13 code of
              Inl e \<Rightarrow> Inl e
            | Inr c \<Rightarrow>
                Inr \<lparr>wb_code = code @ show_nat c, wb_format = ''EAN13'', wb_weight = weight,
                     wb_plu = plu, wb_prefix = prefix, wb_discount = discount\<rparr>))"

subsection \<open>generateSimple\<close>

record simple_barcode =
  sb_code :: string
  sb_format :: string

definition generateSimple :: "string \<Rightarrow> string \<Rightarrow> error + simple_barcode" where
  "generateSimple v type =
     (let code = trim v in
      if type = ''EAN13'' \<and> length code = 12 \<and> all_digits code
      then (case calcControlEAN13 code of
              Inl e \<Rightarrow> Inl e
            | Inr c \<Rightarrow> Inr \<lparr>sb_code = code @ show_nat c, sb_format = type\<rparr>)
      else Inr \<lparr>sb_code = code, sb_format = type\<rparr>)"

subsection \<open>generateUniqueId\<close>

definition id_chars :: string where
  "id_chars = ''ABCDEFGHIJKLMNOPQRSTUVWXYZ0123456789''"

text \<open>
  \<^verbatim>\<open>Math.random\<close> is an input of the model: \<open>rand i\<close> is the value of
  \<^verbatim>\<open>Math.floor(Math.random() * chars.length)\<close> at the \<open>i\<close>-th round of the loop; it is
  below \<^verbatim>\<open>chars.length\<close>, which the reduction modulo the length records.
\<close>

definition generateUniqueId :: "(nat \<Rightarrow> nat) \<Rightarrow> string" where
  "generateUniqueId rand = map (\<lambda>i. id_chars ! (rand i mod length id_chars)) [0..<8]"

subsection \<open>Numbers\<close>

text \<open>
  A JavaScript number is a double of IEEE 754. A finite double is a rational number and
  is kept as such; \<open>to_double x\<close> is the double nearest to the rational \<open>x\<close>, with a
  significand of 53 bits and a tie going to the even significand. The exponent is not
  bounded: infinities and subnormal numbers (beyond \<open>1.8e308\<close>, below \<open>2.2e-308\<close>) are
  not modelled. The value of a decimal literal is \<open>to_double\<close> of the literal, and the
  value of \<^verbatim>\<open>x - y\<close> and \<^verbatim>\<open>x * y\<close> is \<open>to_double\<close> of the exact difference and product.
\<close>

text \<open>The number of binary digits of a positive integer.\<close>

function bit_length :: "int \<Rightarrow> nat" where
  "bit_length n = (if n \<le> 0 then 0 else Suc (bit_length (n div 2)))"
  by pat_completeness auto
termination
  by (relation "measure nat") auto

declare bit_length.simps [simp del]

definition pow2 :: "int \<Rightarrow> rat" where
  "pow2 e = (if 0 \<le> e then 2 ^ nat e else 1 / 2 ^ nat (- e))"

text \<open>The largest \<open>e\<close> with \<open>2\<^sup>e \<le> x\<close>, for a positive \<open>x\<close>.\<close>

definition floor_log2 :: "rat \<Rightarrow> int" where
  "floor_log2 x =
     (case quotient_of x of (a, b) \<Rightarrow>
        (let e = int (bit_length a) - int (bit_length b) in
         if pow2 e \<le> x then e else e - 1))"

definition round_half_even :: "rat \<Rightarrow> int" where
  "round_half_even q =
     (let n = \<lfloor>q\<rfloor>; f = q - of_int n in
      if f < 1 / 2 then n else if 1 / 2 < f then n + 1 else if even n then n else n + 1)"

definition to_double :: "rat \<Rightarrow> rat" where
  "to_double x =
     (if x = 0 then 0
      else (let e = floor_log2 \<bar>x\<bar> - 52 in
            sgn x * of_int (round_half_even (\<bar>x\<bar> / pow2 e)) * pow2 e))"

definition js_minus :: "rat \<Rightarrow> rat \<Rightarrow> rat" where
  "js_minus x y = to_double (x - y)"

definition js_times :: "rat \<Rightarrow> rat \<Rightarrow> rat" where
  "js_times x y = to_double (x * y)"

text \<open>
  \<^verbatim>\<open>Math.round(x)\<close> for a double \<open>x\<close> that is not negative: the nearest integer, a half
  going up. \<^verbatim>\<open>Math.pow(10, d)\<close> is the double nearest to \<open>10\<^sup>d\<close>, which is \<open>10\<^sup>d\<close> itself up
  to \<open>d = 22\<close>.
\<close>

definition math_round :: "rat \<Rightarrow> nat" where
  "math_round x = nat \<lfloor>x + 1 / 2\<rfloor>"

definition math_pow10 :: "nat \<Rightarrow> rat" where
  "math_pow10 d = to_double (10 ^ d)"

subsection \<open>Quantities and calculateDecimalPosition\<close>

text \<open>
  A quantity is a double that is not negative, given by the decimal numeral that
  identifies it: \<open>Dec m k\<close> is the double nearest to \<open>m / 10 ^ k\<close> (\<^verbatim>\<open>12.45\<close> is
  \<open>Dec 1245 2\<close>, \<^verbatim>\<open>1e-7\<close> is \<open>Dec 1 7\<close>), the numeral being the shortest one that
  denotes the double, up to trailing zeros; every numeral of at most 15 significant
  digits is one. \<^verbatim>\<open>quantity.toString()\<close> prints the digits of this numeral without
  trailing zeros of the fraction: as a plain decimal when the first significant digit is
  at most 21 places before and less than 6 places after the decimal point, and with an
  exponent otherwise (\<^verbatim>\<open>1e-7\<close>, \<^verbatim>\<open>1.5e+21\<close>).
\<close>

datatype decimal = Dec nat nat

definition value_of :: "decimal \<Rightarrow> rat" where
  "value_of q = (case q of Dec m k \<Rightarrow> to_double (of_nat m / 10 ^ k))"

fun normalise :: "nat \<Rightarrow> nat \<Rightarrow> nat \<times> nat" where
  "normalise m 0 = (m, 0)"
| "normalise m (Suc k) = (if m mod 10 = 0 then normalise (m div 10) k else (m, Suc k))"

definition toString :: "decimal \<Rightarrow> string" where
  "toString q =
     (case q of Dec m k \<Rightarrow>
        (case normalise m k of (m', k') \<Rightarrow>
           (let n = int (length (show_nat m')) - int k' in
            if 0 < m' \<and> (21 < n \<or> n \<le> - 6) then
              (let ds = rev (dropWhile (\<lambda>c. c = CHR ''0'') (rev (show_nat m')));
                   e = n - 1
               in take 1 ds @ (if length ds = 1 then [] else ''.'' @ drop 1 ds)
                    @ (if 0 \<le> e then ''e+'' else ''e-'') @ show_nat (nat \<bar>e\<bar>))
            else if k' = 0 then show_nat m'
            else show_nat (m' div 10 ^ k') @ ''.'' @ padZeros (show_nat (m' mod 10 ^ k')) k')))"

fun indexOf :: "char \<Rightarrow> string \<Rightarrow> nat option" where
  "indexOf c [] = None"
| "indexOf c (x # xs) = (if x = c then Some 0 else map_option Suc (indexOf c xs))"

definition calculateDecimalPosition :: "decimal \<Rightarrow> nat" where
  "calculateDecimalPosition quantity =
     (let str = toString quantity in
      case indexOf CHR ''.'' str of
        None \<Rightarrow> 0
      | Some dotIndex \<Rightarrow> length str - dotIndex - 1)"

text \<open>
  \<^verbatim>\<open>Math.round(quantity * Math.pow(10, decimalPosition))\<close>, in the arithmetic of
  doubles: \<^verbatim>\<open>0.145 * 100\<close> is \<^verbatim>\<open>14.499999999999998\<close> and is rounded to 14.
\<close>

definition round_scaled :: "decimal \<Rightarrow> nat \<Rightarrow> nat" where
  "round_scaled q d = math_round (js_times (value_of q) (math_pow10 d))"

subsection \<open>generateGS1Code\<close>

text \<open>
  \<^verbatim>\<open>Config.GS1_CONSTANTS\<close> is defined in \<^verbatim>\<open>js/app/config.js\<close>, which the sources do
  not include: the generator takes the table as a parameter.
\<close>

record gs1_constants =
  GS_CHAR :: string
  PREFIX :: string
  AI_GOODS_ID :: string
  AI_QUANTITY :: string
  AI_WEIGHT :: string
  AI_DISCOUNT :: string
  AI_UNIQUE_ID :: string
  AI_DECIMAL_POS :: string

text \<open>
  Modelled from the spec: the values of the table, as the documentation of
  \<^verbatim>\<open>generateGS1Code\<close> and the specification (4.2) show them in
  \<^verbatim>\<open>99MPUC<GS>240123<GS>3700001245<GS>9810<GS>21ABC12345<GS>972<GS>\<close>, the group separator
  being the character with code 29. Only the worked examples use it.
\<close>

definition GS1_CONSTANTS :: gs1_constants where
  "GS1_CONSTANTS =
     \<lparr>GS_CHAR = [CHR 0x1D], PREFIX = ''99MPUC'', AI_GOODS_ID = ''240'',
      AI_QUANTITY = ''37'', AI_WEIGHT = ''3103'', AI_DISCOUNT = ''98'', AI_UNIQUE_ID = ''21'',
      AI_DECIMAL_POS = ''97''\<rparr>"

record gs1_params =
  p_goodsId :: string
  p_type :: string
  p_quantity :: "decimal option"
  p_weight :: "nat option"
  p_discount :: "nat option"
  p_uniqueId :: string
  p_decimalPosition :: "nat option"

text \<open>The two segments both product types add when \<^verbatim>\<open>params.discount > 0\<close>.\<close>

definition discount_segments :: "gs1_constants \<Rightarrow> (nat \<Rightarrow> nat) \<Rightarrow> gs1_params \<Rightarrow> string" where
  "discount_segments K rand params =
     (case p_discount params of
        None \<Rightarrow> []
      | Some discount \<Rightarrow>
          if discount > 0 then
            (let uniqueId = (if p_uniqueId params \<noteq> [] then p_uniqueId params
                             else generateUniqueId rand)
             in AI_DISCOUNT K @ padZeros (show_nat discount) 2 @ GS_CHAR K
                @ AI_UNIQUE_ID K @ uniqueId @ GS_CHAR K)
          else [])"

definition generateGS1Code :: "gs1_constants \<Rightarrow> (nat \<Rightarrow> nat) \<Rightarrow> gs1_params \<Rightarrow> error + string" where
  "generateGS1Code K rand params =
     (let GS = GS_CHAR K;
          code = PREFIX K @ GS;
          goodsId = take 8 (strip_non_digits (p_goodsId params))
      in if goodsId = [] then Inl GoodsIdRequired
         else
           (let code = code @ AI_GOODS_ID K @ goodsId @ GS in
            if p_type params = ''piece'' then
              (let quantity = (case p_quantity params of None \<Rightarrow> Dec 0 0 | Some q \<Rightarrow> q);
                   decimalPosition =
                     (case p_decimalPosition params of
                        Some d \<Rightarrow> d
                      | None \<Rightarrow> calculateDecimalPosition quantity);
                   qtyRaw = round_scaled quantity decimalPosition;
                   code = code @ AI_QUANTITY K @ padZeros (show_nat qtyRaw) 8 @ GS;
                   code = code @ discount_segments K rand params;
                   code = (if decimalPosition > 0
                           then code @ AI_DECIMAL_POS K @ show_nat decimalPosition @ GS
                           else code)
               in Inr code)
            else if p_type params = ''weight'' then
              (let weight = (case p_weight params of None \<Rightarrow> 0 | Some w \<Rightarrow> w);
                   code = code @ AI_WEIGHT K @ padZeros (show_nat weight) 6 @ GS;
                   code = code @ discount_segments K rand params
               in Inr code)
            else Inl InvalidType))"

subsection \<open>extractEAN13FromDM\<close>

text \<open>
  \<^verbatim>\<open>dmCode.match(/01(\d{14})/)\<close>: the leftmost place where \<^verbatim>\<open>01\<close> is followed by 14
  decimal digits; the result is the 14 digits of the group.
\<close>

definition starts_ai01 :: "string \<Rightarrow> bool" where
  "starts_ai01 s =
     (take 2 s = ''01'' \<and> length (take 14 (drop 2 s)) = 14
      \<and> list_all is_digit (take 14 (drop 2 s)))"

fun match_ai01 :: "string \<Rightarrow> string option" where
  "match_ai01 [] = None"
| "match_ai01 (c # cs) =
     (if starts_ai01 (c # cs) then Some (take 14 (drop 2 (c # cs))) else match_ai01 cs)"

definition extractEAN13FromDM :: "string \<Rightarrow> error + string option" where
  "extractEAN13FromDM dmCode =
     (case match_ai01 dmCode of
        None \<Rightarrow> Inr None
      | Some gtin14 \<Rightarrow>
          (let ean12 = take 12 (drop 1 gtin14) in
           case calcControlEAN13 ean12 of
             Inl e \<Rightarrow> Inl e
           | Inr checkDigit \<Rightarrow> Inr (Some (ean12 @ show_nat checkDigit))))"

section \<open>The controllers\<close>

subsection \<open>Configuration and application state\<close>

text \<open>
  \<^verbatim>\<open>Config.TEMPLATES\<close> and \<^verbatim>\<open>Config.DEMO_GTINS\<close> are tables of \<^verbatim>\<open>js/app/config.js\<close>, which
  the sources do not include: the controllers take them as the parameter \<open>cfg\<close>. A
  template may draw random serial numbers: its \<^verbatim>\<open>generate\<close> gets, next to the barcode, the
  state of the random source, which is the number of codes generated before.
\<close>

record template =
  t_name :: string
  t_generate :: "nat \<Rightarrow> string \<Rightarrow> string"

record config =
  TEMPLATES :: "string \<Rightarrow> template option"
  DEMO_GTINS :: "string list"

datatype scan_mode = sameDM | dmEan | sameEan | differentDM

datatype code_kind = DM | EAN13

record secondary =
  sec_type :: code_kind
  sec_code :: "string option"
  sec_barcode :: string

record dm_result =
  r_code :: string
  r_templateName :: string
  r_barcode :: string
  r_displayAsEan :: bool
  r_ean13Code :: "string option"

record dm_item =
  i_barcode :: string
  i_template :: string
  i_active :: bool

record cached_code =
  c_code :: string
  c_barcode :: string
  c_templateName :: string
  c_rotationIdx :: nat
  c_doubleScanMode :: "scan_mode option"
  c_primaryDisplayAsEan :: bool
  c_secondaryCode :: "secondary option"

record gs1_item =
  g_code :: string
  g_goodsId :: string
  g_active :: bool

record history_entry =
  h_type :: string
  h_code :: string

record code_info =
  ci_barcode :: string
  ci_templateName :: string
  ci_index :: nat
  ci_total :: nat

text \<open>
  The state is \<^verbatim>\<open>State.dm\<close>, \<^verbatim>\<open>State.gs1\<close>, the activity log and the demo cursor of
  \<^verbatim>\<open>State\<close>, and what the controllers read and write outside of it: the random source
  (\<open>seed\<close>), the timers of the window (\<open>timers\<close> counts the calls of
  \<^verbatim>\<open>window.setInterval\<close>, the handle of a timer being its number), the double-scan
  check boxes, and of the page the text of \<^verbatim>\<open>#current-code\<close> and
  \<^verbatim>\<open>#secondary-code-text\<close>, the code and kind last rendered as primary and as secondary
  code (\<open>None\<close>: the container is hidden), the arguments of the last \<^verbatim>\<open>showCodeInfo\<close>, and
  the text, counter and QR code of the GS1 carousel. Styles, badges, animations and the
  countdown text are not modelled. A time is a double, a number of seconds.
\<close>

record state =
  dm_rotationList :: "dm_item list"
  dm_rotationIndex :: nat
  dm_isRotating :: bool
  dm_generatedCodes :: "cached_code list"
  dm_codeHistoryIndex :: int
  dm_selectedTemplate :: string
  dm_timerValue :: rat
  dm_remaining :: rat
  dm_timerInterval :: "nat option"
  gs1_rotationItems :: "gs1_item list"
  gs1_rotationIndex :: nat
  gs1_isRotating :: bool
  gs1_timerValue :: rat
  gs1_remaining :: rat
  gs1_timerInterval :: "nat option"
  history :: "history_entry list"
  demoIndex :: nat
  seed :: nat
  timers :: nat
  checked :: "scan_mode \<Rightarrow> bool"
  current_code :: string
  secondary_code_text :: "string option"
  primary_render :: "code_kind \<times> string option"
  secondary_render :: "(code_kind \<times> string option) option"
  info :: "code_info option"
  gs1_code_text :: string
  gs1_counter :: "nat \<times> nat"
  gs1_qr :: string

text \<open>
  A call returns a value or throws; the state changes made before a throw stay. \<open>and_then\<close>
  runs the rest of a function body after a call that may throw.
\<close>

type_synonym 'a result = "(error + 'a) \<times> state"

definition and_then :: "'a result \<Rightarrow> ('a \<Rightarrow> state \<Rightarrow> 'b result) \<Rightarrow> 'b result" where
  "and_then m f = (case m of (Inl e, s) \<Rightarrow> (Inl e, s) | (Inr a, s) \<Rightarrow> f a s)"

text \<open>The remainder \<^verbatim>\<open>a % b\<close> of JavaScript, for \<open>b > 0\<close>: it has the sign of \<open>a\<close>.\<close>

definition js_rem :: "int \<Rightarrow> int \<Rightarrow> int" where
  "js_rem a b = (if a < 0 then - ((- a) mod b) else a mod b)"

text \<open>
  Modelled from the spec: \<^verbatim>\<open>State.getNextDemoGtin\<close> is a function of
  \<^verbatim>\<open>js/app/state.js\<close>, which the sources do not include. The specification (4.2, 6): a
  round-robin over the fixed demo list.
\<close>

definition getNextDemoGtin :: "config \<Rightarrow> state \<Rightarrow> string \<times> state" where
  "getNextDemoGtin cfg s =
     (if DEMO_GTINS cfg = [] then ([], s)
      else (DEMO_GTINS cfg ! (demoIndex s mod length (DEMO_GTINS cfg)),
            s\<lparr>demoIndex := demoIndex s + 1\<rparr>))"

text \<open>
  Modelled from the spec: \<^verbatim>\<open>State.addToHistory\<close>, also of \<^verbatim>\<open>js/app/state.js\<close>. The
  specification (6): the entry is appended to an append-only activity log.
\<close>

definition addToHistory :: "history_entry \<Rightarrow> state \<Rightarrow> state" where
  "addToHistory e s = s\<lparr>history := history s @ [e]\<rparr>"

subsection \<open>generateDM\<close>

text \<open>
  A template identifier that the table does not have gives \<^verbatim>\<open>undefined\<close>, and the call
  of its \<^verbatim>\<open>generate\<close> throws a \<^verbatim>\<open>TypeError\<close>, after the demo cursor has moved.
\<close>

definition generateDM :: "config \<Rightarrow> string \<Rightarrow> string \<Rightarrow> state \<Rightarrow> dm_result result" where
  "generateDM cfg barcode templateId s =
     (let template = TEMPLATES cfg (if templateId \<noteq> [] then templateId
                                    else dm_selectedTemplate s);
          (usedBarcode, s) = (if barcode = [] then getNextDemoGtin cfg s else (barcode, s))
      in case template of
           None \<Rightarrow> (Inl TypeError, s)
         | Some t \<Rightarrow>
             (let code = t_generate t (seed s) usedBarcode;
                  s = s\<lparr>seed := seed s + 1\<rparr>;
                  s = addToHistory \<lparr>h_type = ''DM'', h_code = code\<rparr> s
              in (Inr \<lparr>r_code = code, r_templateName = t_name t, r_barcode = usedBarcode,
                       r_displayAsEan = False, r_ean13Code = None\<rparr>, s)))"

subsection \<open>The DataMatrix controller\<close>

definition getActiveDoubleScanMode :: "state \<Rightarrow> scan_mode option" where
  "getActiveDoubleScanMode s =
     (if checked s sameDM then Some sameDM
      else if checked s dmEan then Some dmEan
      else if checked s sameEan then Some sameEan
      else if checked s differentDM then Some differentDM
      else None)"

definition render_of :: "secondary \<Rightarrow> code_kind \<times> string option" where
  "render_of sec = (sec_type sec, sec_code sec)"

definition updateCodeText :: "string \<Rightarrow> secondary option \<Rightarrow> state \<Rightarrow> state" where
  "updateCodeText primaryCode secondaryCode s =
     s\<lparr>current_code := primaryCode,
       secondary_code_text :=
         map_option (\<lambda>sec. case sec_code sec of None \<Rightarrow> [] | Some c \<Rightarrow> c) secondaryCode\<rparr>"

text \<open>
  \<^verbatim>\<open>generateAndDisplay\<close> in four steps. The first is the primary code: in rotation mode
  the item under the cursor, which then advances; otherwise a demo code. It returns the
  result, \<^verbatim>\<open>barcode\<close> and \<^verbatim>\<open>currentRotationIdx\<close> (which only the rotation mode uses).
\<close>

definition primary_code :: "config \<Rightarrow> state \<Rightarrow> (dm_result \<times> string \<times> nat) result" where
  "primary_code cfg s =
     (if dm_isRotating s \<and> dm_rotationList s \<noteq> [] then
        (if dm_rotationIndex s < length (dm_rotationList s) then
           (let item = dm_rotationList s ! dm_rotationIndex s;
                barcode = i_barcode item
            in and_then (generateDM cfg barcode (i_template item) s)
                 (\<lambda>result s.
                    (Inr (result, barcode, dm_rotationIndex s),
                     s\<lparr>dm_rotationIndex :=
                          (dm_rotationIndex s + 1) mod length (dm_rotationList s)\<rparr>)))
         else (Inl TypeError, s))
      else and_then (generateDM cfg [] [] s) (\<lambda>result s. (Inr (result, [], 0), s)))"

text \<open>The second step is the secondary code of the double-scan mode.\<close>

definition secondary_code ::
  "config \<Rightarrow> scan_mode option \<Rightarrow> dm_result \<Rightarrow> string \<Rightarrow> state
     \<Rightarrow> (dm_result \<times> secondary option) result" where
  "secondary_code cfg doubleScanMode result barcode s =
     (case doubleScanMode of
        None \<Rightarrow> (Inr (result, None), s)
      | Some sameDM \<Rightarrow>
          (Inr (result,
                Some \<lparr>sec_type = DM, sec_code = Some (r_code result), sec_barcode = barcode\<rparr>), s)
      | Some dmEan \<Rightarrow>
          (case extractEAN13FromDM (r_code result) of
             Inl e \<Rightarrow> (Inl e, s)
           | Inr ean13 \<Rightarrow>
               (Inr (result, Some \<lparr>sec_type = EAN13, sec_code = ean13, sec_barcode = []\<rparr>), s))
      | Some sameEan \<Rightarrow>
          (case extractEAN13FromDM (r_code result) of
             Inl e \<Rightarrow> (Inl e, s)
           | Inr ean13_1 \<Rightarrow>
               (case extractEAN13FromDM (r_code result) of
                  Inl e \<Rightarrow> (Inl e, s)
                | Inr ean13_2 \<Rightarrow>
                    (Inr (result\<lparr>r_displayAsEan := True, r_ean13Code := ean13_1\<rparr>,
                          Some \<lparr>sec_type = EAN13, sec_code = ean13_2, sec_barcode = []\<rparr>), s)))
      | Some differentDM \<Rightarrow>
          (if dm_isRotating s then
             (if dm_rotationList s = [] then (Inl TypeError, s)
              else
                (let len = length (dm_rotationList s);
                     nextBarcode = i_barcode (dm_rotationList s ! (dm_rotationIndex s mod len));
                     templateId =
                       i_template (dm_rotationList s ! ((dm_rotationIndex s + len - 1) mod len))
                 in and_then (generateDM cfg nextBarcode templateId s)
                      (\<lambda>result2 s.
                         (Inr (result,
                               Some \<lparr>sec_type = DM, sec_code = Some (r_code result2),
                                     sec_barcode = nextBarcode\<rparr>), s))))
           else
             (let (nextBarcode, s) = getNextDemoGtin cfg s;
                  templateId = dm_selectedTemplate s
              in and_then (generateDM cfg nextBarcode templateId s)
                   (\<lambda>result2 s.
                      (Inr (result,
                            Some \<lparr>sec_type = DM, sec_code = Some (r_code result2),
                                  sec_barcode = nextBarcode\<rparr>), s)))))"

text \<open>The third step caches the code and shows its information.\<close>

definition cache_code ::
  "config \<Rightarrow> scan_mode option \<Rightarrow> dm_result \<Rightarrow> string \<Rightarrow> nat \<Rightarrow> secondary option
     \<Rightarrow> state \<Rightarrow> state" where
  "cache_code cfg doubleScanMode result barcode currentRotationIdx secondaryResult s =
     (if dm_isRotating s \<and> dm_rotationList s \<noteq> [] then
        s\<lparr>dm_generatedCodes := dm_generatedCodes s @
             [\<lparr>c_code = r_code result, c_barcode = barcode,
               c_templateName = r_templateName result, c_rotationIdx = currentRotationIdx,
               c_doubleScanMode = doubleScanMode,
               c_primaryDisplayAsEan = r_displayAsEan result,
               c_secondaryCode = secondaryResult\<rparr>],
          dm_codeHistoryIndex := int (length (dm_generatedCodes s)),
          info := Some \<lparr>ci_barcode = barcode, ci_templateName = r_templateName result,
                         ci_index = currentRotationIdx + 1,
                         ci_total = length (dm_rotationList s)\<rparr>\<rparr>
      else
        s\<lparr>dm_generatedCodes := dm_generatedCodes s @
             [\<lparr>c_code = r_code result, c_barcode = r_barcode result,
               c_templateName = r_templateName result,
               c_rotationIdx = length (dm_generatedCodes s),
               c_doubleScanMode = doubleScanMode,
               c_primaryDisplayAsEan = r_displayAsEan result,
               c_secondaryCode = secondaryResult\<rparr>],
          dm_codeHistoryIndex := int (length (dm_generatedCodes s)),
          info := Some \<lparr>ci_barcode = r_barcode result,
                         ci_templateName = r_templateName result,
                         ci_index = length (dm_generatedCodes s) + 1,
                         ci_total = length (DEMO_GTINS cfg)\<rparr>\<rparr>)"

text \<open>The fourth step renders both codes and updates the text.\<close>

definition show_codes :: "dm_result \<Rightarrow> secondary option \<Rightarrow> state \<Rightarrow> state" where
  "show_codes result secondaryResult s =
     updateCodeText (r_code result) secondaryResult
       (s\<lparr>primary_render :=
            (if r_displayAsEan result then (EAN13, r_ean13Code result)
             else (DM, Some (r_code result))),
          secondary_render := map_option render_of secondaryResult\<rparr>)"

definition generateAndDisplay :: "config \<Rightarrow> state \<Rightarrow> unit result" where
  "generateAndDisplay cfg s =
     (let doubleScanMode = getActiveDoubleScanMode s in
      and_then (primary_code cfg s)
        (\<lambda>(result, barcode, currentRotationIdx) s.
           and_then (secondary_code cfg doubleScanMode result barcode s)
             (\<lambda>(result, secondaryResult) s.
                (Inr (),
                 show_codes result secondaryResult
                   (cache_code cfg doubleScanMode result barcode currentRotationIdx
                      secondaryResult s)))))"

definition displayFromCache :: "config \<Rightarrow> int \<Rightarrow> state \<Rightarrow> unit result" where
  "displayFromCache cfg index s =
     (if index < 0 \<or> index \<ge> int (length (dm_generatedCodes s)) then (Inr (), s)
      else
        (let cached = dm_generatedCodes s ! nat index;
             s = s\<lparr>dm_codeHistoryIndex := index\<rparr>
         in case (if c_primaryDisplayAsEan cached then extractEAN13FromDM (c_code cached)
                  else Inr None) of
              Inl e \<Rightarrow> (Inl e, s)
            | Inr ean13Code \<Rightarrow>
                (let s = s\<lparr>primary_render :=
                             (if c_primaryDisplayAsEan cached then (EAN13, ean13Code)
                              else (DM, Some (c_code cached)))\<rparr>;
                     s = (if c_doubleScanMode cached \<noteq> None \<and> c_secondaryCode cached \<noteq> None
                          then s\<lparr>secondary_render :=
                                   map_option render_of (c_secondaryCode cached)\<rparr>
                          else s\<lparr>secondary_render := None\<rparr>);
                     s = updateCodeText (c_code cached) (c_secondaryCode cached) s;
                     total = (if dm_rotationList s \<noteq> [] then length (dm_rotationList s)
                              else length (DEMO_GTINS cfg))
                 in (Inr (),
                     s\<lparr>info := Some \<lparr>ci_barcode = c_barcode cached,
                                       ci_templateName = c_templateName cached,
                                       ci_index = c_rotationIdx cached + 1,
                                       ci_total = total\<rparr>\<rparr>))))"

definition dm_stopTimer :: "state \<Rightarrow> state" where
  "dm_stopTimer s = s\<lparr>dm_timerInterval := None\<rparr>"

definition dm_startTimer :: "config \<Rightarrow> state \<Rightarrow> unit result" where
  "dm_startTimer cfg s =
     (let s = dm_stopTimer s;
          n = int (length (dm_generatedCodes s))
      in and_then
           (if dm_generatedCodes s \<noteq> [] \<and> dm_codeHistoryIndex s < n - 1
            then displayFromCache cfg (n - 1) (s\<lparr>dm_codeHistoryIndex := n - 1\<rparr>)
            else (Inr (), s))
           (\<lambda>_ s. (Inr (),
                    s\<lparr>dm_remaining := dm_timerValue s,
                      dm_timerInterval := Some (timers s),
                      timers := timers s + 1\<rparr>)))"

text \<open>
  The number that \<^verbatim>\<open>parseFloat\<close> hands to \<^verbatim>\<open>setInterval\<close>: \<^verbatim>\<open>NaN\<close> or a finite value.
\<close>

datatype js_number = NaN | Num rat

definition dm_setInterval :: "config \<Rightarrow> js_number \<Rightarrow> state \<Rightarrow> unit result" where
  "dm_setInterval cfg v s =
     (case v of
        NaN \<Rightarrow> (Inr (), s)
      | Num x \<Rightarrow>
          if x \<le> 0 then (Inr (), s)
          else dm_startTimer cfg (s\<lparr>dm_timerValue := x, dm_remaining := x\<rparr>))"

text \<open>
  The callback that \<^verbatim>\<open>startTimer\<close> hands to \<^verbatim>\<open>window.setInterval\<close>, run every 100 ms
  while the timer is armed.
\<close>

definition dm_tick :: "config \<Rightarrow> state \<Rightarrow> unit result" where
  "dm_tick cfg s =
     (let s = s\<lparr>dm_remaining := js_minus (dm_remaining s) (to_double (1 / 10))\<rparr> in
      if dm_remaining s \<le> to_double (1 / 20)
      then and_then (generateAndDisplay cfg s)
             (\<lambda>_ s. (Inr (), s\<lparr>dm_remaining := dm_timerValue s\<rparr>))
      else (Inr (), s))"

text \<open>
  \<^verbatim>\<open>startRotation\<close>; \<open>folder\<close> is what \<^verbatim>\<open>State.getDmFolder()\<close> returns, the items of the
  selected folder or nothing.
\<close>

definition dm_startRotation :: "config \<Rightarrow> dm_item list option \<Rightarrow> state \<Rightarrow> unit result" where
  "dm_startRotation cfg folder s =
     (case folder of
        None \<Rightarrow> (Inr (), s)
      | Some items \<Rightarrow>
          (let active = filter i_active items in
           if active = [] then (Inr (), s)
           else
             (let s = s\<lparr>dm_rotationList := active, dm_rotationIndex := 0,
                        dm_isRotating := True, dm_generatedCodes := [],
                        dm_codeHistoryIndex := - 1\<rparr>
              in and_then (generateAndDisplay cfg s) (\<lambda>_ s. dm_startTimer cfg s))))"

definition dm_stopRotation :: "config \<Rightarrow> state \<Rightarrow> unit result" where
  "dm_stopRotation cfg s =
     (let s = dm_stopTimer (s\<lparr>dm_isRotating := False\<rparr>);
          s = s\<lparr>dm_rotationList := [], dm_rotationIndex := 0, dm_generatedCodes := [],
                dm_codeHistoryIndex := - 1, info := None\<rparr>
      in generateAndDisplay cfg s)"

definition dm_manualNext :: "config \<Rightarrow> state \<Rightarrow> unit result" where
  "dm_manualNext cfg s =
     (let n = length (dm_rotationList s); codes = dm_generatedCodes s in
      if n > 0 \<and> length codes \<ge> n
      then displayFromCache cfg (js_rem (dm_codeHistoryIndex s + 1) (int n)) s
      else if codes \<noteq> [] \<and> dm_codeHistoryIndex s < int (length codes) - 1
      then displayFromCache cfg (dm_codeHistoryIndex s + 1) s
      else if n > 0 \<and> length (remdups (map c_rotationIdx codes)) \<ge> n
      then displayFromCache cfg 0 s
      else generateAndDisplay cfg s)"

definition dm_manualPrev :: "config \<Rightarrow> state \<Rightarrow> unit result" where
  "dm_manualPrev cfg s =
     (let n = length (dm_rotationList s); codes = dm_generatedCodes s in
      if n > 0 \<and> length codes \<ge> n
      then displayFromCache cfg
             (if dm_codeHistoryIndex s - 1 < 0 then int n - 1 else dm_codeHistoryIndex s - 1) s
      else if codes \<noteq> [] \<and> dm_codeHistoryIndex s > 0
      then displayFromCache cfg (dm_codeHistoryIndex s - 1) s
      else (Inr (), s))"

subsection \<open>The GS1 controller\<close>

text \<open>
  The items of the carousel carry the code that \<^verbatim>\<open>addItems\<close> generated for them. The
  rendering of the QR code catches its own errors, so these functions do not throw.
\<close>

definition displayCodeManual :: "state \<Rightarrow> state" where
  "displayCodeManual s =
     (let items = gs1_rotationItems s in
      if items = [] then s
      else
        (let item = items ! (gs1_rotationIndex s mod length items) in
         s\<lparr>gs1_code_text := g_code item,
           gs1_counter := (gs1_rotationIndex s mod length items + 1, length items),
           gs1_qr := g_code item,
           gs1_rotationIndex := gs1_rotationIndex s + 1\<rparr>))"

definition displayCode :: "state \<Rightarrow> state" where
  "displayCode s =
     (let items = gs1_rotationItems s in
      if items = [] then s
      else
        (let item = items ! (gs1_rotationIndex s mod length items);
             s = s\<lparr>gs1_code_text := g_code item,
                   gs1_counter := (gs1_rotationIndex s mod length items + 1, length items),
                   gs1_qr := g_code item,
                   gs1_rotationIndex := gs1_rotationIndex s + 1\<rparr>
         in addToHistory \<lparr>h_type = ''GS1'', h_code = g_code item\<rparr> s))"

definition gs1_manualNext :: "state \<Rightarrow> state" where
  "gs1_manualNext s = (if gs1_rotationItems s \<noteq> [] then displayCodeManual s else s)"

definition gs1_manualPrev :: "state \<Rightarrow> state" where
  "gs1_manualPrev s =
     (if gs1_rotationItems s \<noteq> [] then
        (let len = int (length (gs1_rotationItems s));
             i = js_rem (int (gs1_rotationIndex s) - 2 + len) len;
             i = (if i < 0 then len - 1 else i)
         in displayCodeManual (s\<lparr>gs1_rotationIndex := nat i\<rparr>))
      else s)"

definition gs1_stopTimer :: "state \<Rightarrow> state" where
  "gs1_stopTimer s = s\<lparr>gs1_timerInterval := None\<rparr>"

definition gs1_startTimer :: "state \<Rightarrow> state" where
  "gs1_startTimer s =
     (let s = gs1_stopTimer s in
      s\<lparr>gs1_remaining := gs1_timerValue s,
        gs1_timerInterval := Some (timers s),
        timers := timers s + 1\<rparr>)"

definition gs1_setInterval :: "js_number \<Rightarrow> state \<Rightarrow> state" where
  "gs1_setInterval v s =
     (case v of
        NaN \<Rightarrow> s
      | Num x \<Rightarrow>
          if x \<le> 0 then s
          else
            (let s = s\<lparr>gs1_timerValue := x\<rparr> in
             if gs1_isRotating s then gs1_startTimer s else s))"

definition gs1_tick :: "state \<Rightarrow> state" where
  "gs1_tick s =
     (let s = s\<lparr>gs1_remaining := js_minus (gs1_remaining s) (to_double (1 / 10))\<rparr> in
      if gs1_remaining s \<le> to_double (1 / 20)
      then (let s = displayCode s in s\<lparr>gs1_remaining := gs1_timerValue s\<rparr>)
      else s)"

text \<open>\<open>folder\<close> is what \<^verbatim>\<open>State.getGs1Folder()\<close> returns.\<close>

definition gs1_startRotation :: "gs1_item list option \<Rightarrow> state \<Rightarrow> state" where
  "gs1_startRotation folder s =
     (case folder of
        None \<Rightarrow> s
      | Some items \<Rightarrow>
          (let active = filter g_active items in
           if active = [] then s
           else gs1_startTimer
                  (displayCode
                     (s\<lparr>gs1_rotationItems := active, gs1_rotationIndex := 0,
                        gs1_isRotating := True\<rparr>))))"

definition gs1_stopRotation :: "state \<Rightarrow> state" where
  "gs1_stopRotation s = gs1_stopTimer (s\<lparr>gs1_isRotating := False\<rparr>)"

subsection \<open>Runs of the controllers\<close>

text \<open>
  The events that generate or show a code: a refresh, a replay from the cache, the arrow
  keys and the tick of a timer, in the DataMatrix tab and in the GS1 carousel. An exception
  ends the handler of the event; the state it leaves is the state of the next event.
\<close>

datatype event =
    Generate | Replay int | Next | Prev | Tick
  | Gs1Display | Gs1Manual | Gs1Next | Gs1Prev | Gs1Tick

fun handle :: "config \<Rightarrow> event \<Rightarrow> state \<Rightarrow> state" where
  "handle cfg Generate s = snd (generateAndDisplay cfg s)"
| "handle cfg (Replay i) s = snd (displayFromCache cfg i s)"
| "handle cfg Next s = snd (dm_manualNext cfg s)"
| "handle cfg Prev s = snd (dm_manualPrev cfg s)"
| "handle cfg Tick s = snd (dm_tick cfg s)"
| "handle cfg Gs1Display s = displayCode s"
| "handle cfg Gs1Manual s = displayCodeManual s"
| "handle cfg Gs1Next s = gs1_manualNext s"
| "handle cfg Gs1Prev s = gs1_manualPrev s"
| "handle cfg Gs1Tick s = gs1_tick s"

fun run :: "config \<Rightarrow> event list \<Rightarrow> state \<Rightarrow> state" where
  "run cfg [] s = s"
| "run cfg (e # es) s = run cfg es (handle cfg e s)"

text \<open>
  The number of times the events of a run show a GS1 item through \<^verbatim>\<open>displayCode\<close>, the
  automatic display of the carousel.
\<close>

definition gs1_shows :: "event \<Rightarrow> state \<Rightarrow> nat" where
  "gs1_shows e s =
     (if gs1_rotationItems s = [] then 0
      else case e of
             Gs1Display \<Rightarrow> 1
           | Gs1Tick \<Rightarrow>
               (if js_minus (gs1_remaining s) (to_double (1 / 10)) \<le> to_double (1 / 20)
                then 1 else 0)
           | _ \<Rightarrow> 0)"

fun gs1_shown :: "config \<Rightarrow> event list \<Rightarrow> state \<Rightarrow> nat" where
  "gs1_shown cfg [] s = 0"
| "gs1_shown cfg (e # es) s = gs1_shows e s + gs1_shown cfg es (handle cfg e s)"

subsection \<open>A configuration and a state for the worked examples\<close>

text \<open>
  Modelled from the spec: the tables of \<^verbatim>\<open>js/app/config.js\<close> are not in the sources. The
  example table has one template, \<^verbatim>\<open>type1\<close>, with the layout that the documentation of
  \<^verbatim>\<open>generateDM\<close> shows (\<^verbatim>\<open>010481009900331021...\<close>): AI 01 and the GTIN padded to 14 digits,
  then AI 21 and a serial number, here the state of the random source.
\<close>

definition example_template :: template where
  "example_template =
     \<lparr>t_name = ''Type 1'',
      t_generate = (\<lambda>n gtin. ''01'' @ padZeros gtin 14 @ ''21'' @ padZeros (show_nat n) 6)\<rparr>"

text \<open>
  Modelled from the spec: the example table of templates and a demo list of one GTIN, the
  one of the documentation.
\<close>

definition example_config :: config where
  "example_config =
     \<lparr>TEMPLATES = [''type1'' \<mapsto> example_template], DEMO_GTINS = [''4810099003310'']\<rparr>"

text \<open>
  Modelled from the spec: a second example template, \<^verbatim>\<open>type2\<close>, of another layout that
  embeds AI 01: the expiry date (AI 17 and six digits) comes first, then AI 01 and the
  GTIN padded to 14 digits, then AI 21 and the serial number.
\<close>

definition dated_template :: "string \<Rightarrow> template" where
  "dated_template date =
     \<lparr>t_name = ''Type 2'',
      t_generate =
        (\<lambda>n gtin. ''17'' @ date @ ''01'' @ padZeros gtin 14 @ ''21'' @ padZeros (show_nat n) 6)\<rparr>"

definition dated_config :: "string \<Rightarrow> config" where
  "dated_config date =
     \<lparr>TEMPLATES = [''type1'' \<mapsto> example_template, ''type2'' \<mapsto> dated_template date],
      DEMO_GTINS = [''4810099003310'']\<rparr>"

text \<open>
  The state of the examples: no rotation, no timer, empty logs, no double-scan mode, the
  template \<^verbatim>\<open>type1\<close> selected and intervals of 5 seconds.
\<close>

definition idle_state :: state where
  "idle_state =
     \<lparr>dm_rotationList = [], dm_rotationIndex = 0, dm_isRotating = False,
      dm_generatedCodes = [], dm_codeHistoryIndex = - 1, dm_selectedTemplate = ''type1'',
      dm_timerValue = 5, dm_remaining = 5, dm_timerInterval = None,
      gs1_rotationItems = [], gs1_rotationIndex = 0, gs1_isRotating = False,
      gs1_timerValue = 5, gs1_remaining = 5, gs1_timerInterval = None,
      history = [], demoIndex = 0, seed = 0, timers = 0, checked = (\<lambda>_. False),
      current_code = [], secondary_code_text = None, primary_render = (DM, None),
      secondary_render = None, info = None, gs1_code_text = [], gs1_counter = (0, 0),
      gs1_qr = []\<rparr>"

subsection \<open>Predicates for the proofs\<close>

text \<open>
  Between two states, every code generated (a step of the random source) is one entry of
  the activity log.
\<close>

definition logs_generated :: "state \<Rightarrow> state \<Rightarrow> bool" where
  "logs_generated s s' =
     (seed s \<le> seed s' \<and> length (history s') + seed s = length (history s) + seed s')"

text \<open>
  A rotation over the list \<open>L\<close> with the template \<open>sel\<close> selected, after the codes of the
  items \<open>0\<close> to \<open>k\<close> have been generated, the last of them on display.
\<close>

definition generating :: "dm_item list \<Rightarrow> string \<Rightarrow> nat \<Rightarrow> state \<Rightarrow> bool" where
  "generating L sel k s =
     (dm_rotationList s = L \<and> dm_isRotating s \<and> dm_selectedTemplate s = sel
      \<and> length (dm_generatedCodes s) = k + 1 \<and> dm_codeHistoryIndex s = int k
      \<and> dm_rotationIndex s = (k + 1) mod length L
      \<and> current_code s = c_code (dm_generatedCodes s ! k)
      \<and> list_all (\<lambda>j. c_rotationIdx (dm_generatedCodes s ! j) = j
                       \<and> c_barcode (dm_generatedCodes s ! j) = i_barcode (L ! j)) [0..<k + 1])"

text \<open>
  A rotation over the list \<open>L\<close> whose cache \<open>C\<close> has a code for every item, the code \<open>j\<close> on
  display, with the log \<open>h\<close> and the random source at \<open>n\<close>.
\<close>

definition replaying ::
  "dm_item list \<Rightarrow> cached_code list \<Rightarrow> history_entry list \<Rightarrow> nat \<Rightarrow> nat \<Rightarrow> state \<Rightarrow> bool" where
  "replaying L C h n j s =
     (dm_rotationList s = L \<and> dm_generatedCodes s = C \<and> length C = length L
      \<and> history s = h \<and> seed s = n
      \<and> j < length L \<and> dm_codeHistoryIndex s = int j \<and> current_code s = c_code (C ! j))"

text \<open>The state after \<open>k\<close> presses of the next key.\<close>

definition nexts :: "config \<Rightarrow> nat \<Rightarrow> state \<Rightarrow> state" where
  "nexts cfg k s = ((\<lambda>st. snd (dm_manualNext cfg st)) ^^ k) s"

text \<open>A folder for the worked examples: two active items and one that is not selected.\<close>

definition example_folder :: "dm_item list" where
  "example_folder =
     [\<lparr>i_barcode = ''4810099003310'', i_template = ''type1'', i_active = True\<rparr>,
      \<lparr>i_barcode = ''4600000000000'', i_template = ''type1'', i_active = False\<rparr>,
      \<lparr>i_barcode = ''5901234123457'', i_template = [], i_active = True\<rparr>]"

section \<open>Properties of the generators\<close>

subsection \<open>Decimal numerals, padding and trimming\<close>

lemma nat_lt_10_cases: "m < 10 \<Longrightarrow> m \<in> {0, 1, 2, 3, 4, 5, 6, 7, 8, 9 :: nat}"
  by auto

lemma is_digit_digit_char: "is_digit (digit_char n)"
proof -
  have "n mod 10 \<in> {0, 1, 2, 3, 4, 5, 6, 7, 8, 9 :: nat}"
    by (rule nat_lt_10_cases) simp
  then show ?thesis
    unfolding digit_char_def is_digit_def by (elim insertE) simp_all
qed

lemma show_nat_digits: "list_all is_digit (show_nat n)"
proof (induction n rule: show_nat.induct)
  case (1 n)
  show ?case
  proof (cases "n < 10")
    case True
    then show ?thesis by (subst show_nat.simps) (simp add: is_digit_digit_char)
  next
    case False
    with 1 show ?thesis by (subst show_nat.simps) (simp add: is_digit_digit_char)
  qed
qed

lemma show_nat_nonempty: "show_nat n \<noteq> []"
  by (subst show_nat.simps) simp

lemma length_show_nat: "n < 10 ^ Suc k \<Longrightarrow> length (show_nat n) \<le> Suc k"
proof (induction k arbitrary: n)
  case 0
  then show ?case by (subst show_nat.simps) simp
next
  case (Suc k)
  show ?case
  proof (cases "n < 10")
    case True
    then show ?thesis by (subst show_nat.simps) simp
  next
    case False
    from Suc.prems have "n div 10 < 10 ^ Suc k" by (simp add: less_mult_imp_div_less)
    then have "length (show_nat (n div 10)) \<le> Suc k" by (rule Suc.IH)
    with False show ?thesis by (subst show_nat.simps) simp
  qed
qed

lemma show_nat_single: "n < 10 \<Longrightarrow> show_nat n = [digit_char n]"
  by (subst show_nat.simps) simp

lemma length_padZeros: "length (padZeros s w) = max w (length s)"
  by (simp add: padZeros_def)

lemma is_digit_zero: "is_digit CHR ''0''"
  by (simp add: is_digit_def)

lemma padZeros_digits: "list_all is_digit s \<Longrightarrow> list_all is_digit (padZeros s w)"
  by (auto simp: padZeros_def list_all_iff is_digit_zero)

lemma digit_not_space: "is_digit c \<Longrightarrow> \<not> is_space c"
  by (auto simp: is_digit_def is_space_def)

lemma trim_digits: "list_all is_digit s \<Longrightarrow> trim s = s"
proof (cases s rule: rev_cases)
  case Nil
  then show ?thesis by (simp add: trim_def)
next
  case (snoc ys y)
  assume a: "list_all is_digit s"
  have 1: "dropWhile is_space s = s"
    using a by (cases s) (auto simp: digit_not_space)
  have 2: "dropWhile is_space (rev s) = rev s"
    using a snoc by (auto simp: digit_not_space)
  show ?thesis by (simp add: trim_def 1 2)
qed

lemma replicate_numeral: "replicate (numeral v) x = x # replicate (pred_numeral v) x"
  by (simp add: numeral_eq_Suc)

lemma show_nat_1500: "show_nat 1500 = ''1500''"
  by (simp add: show_nat.simps digit_char_def)

lemma length_padZeros_show_nat:
  "n < 10 ^ Suc k \<Longrightarrow> length (padZeros (show_nat n) (Suc k)) = Suc k"
  using length_show_nat [of n k] by (simp add: length_padZeros)

lemma length_padZeros_le: "length s \<le> w \<Longrightarrow> length (padZeros s w) = w"
  by (simp add: length_padZeros)

subsection \<open>Weight barcodes\<close>

text \<open>
  Claim C2, amended. For the prefix \<^verbatim>\<open>77\<close> the generator returns \<^verbatim>\<open>77\<close>, the PLU
  padded with zeros on the left to 6 characters, the weight padded to 7, and the fixed
  check digit \<^verbatim>\<open>0\<close>, with the format \<^verbatim>\<open>CODE128\<close>. With a PLU of at most 6 characters
  and a weight below \<open>10 ^ 7\<close> the code has 16 characters, and for the PLU \<^verbatim>\<open>12345\<close> and
  1500 grams it is \<^verbatim>\<open>7701234500015000\<close>.
\<close>

theorem generateWeightBarcode_77:
  "generateWeightBarcode cc ''77'' plu w d =
     Inr \<lparr>wb_code = ''77'' @ padZeros plu 6 @ padZeros (show_nat w) 7 @ ''0'',
          wb_format = ''CODE128'', wb_weight = w, wb_plu = plu, wb_prefix = ''77'',
          wb_discount = d\<rparr>
   \<and> (length plu \<le> 6 \<and> w < 10 ^ 7 \<longrightarrow>
        length (''77'' @ padZeros plu 6 @ padZeros (show_nat w) 7 @ ''0'') = 16)
   \<and> ''77'' @ padZeros ''12345'' 6 @ padZeros (show_nat 1500) 7 @ ''0'' = ''7701234500015000''"
proof (intro conjI impI)
  show "generateWeightBarcode cc ''77'' plu w d =
     Inr \<lparr>wb_code = ''77'' @ padZeros plu 6 @ padZeros (show_nat w) 7 @ ''0'',
          wb_format = ''CODE128'', wb_weight = w, wb_plu = plu, wb_prefix = ''77'',
          wb_discount = d\<rparr>"
    by (simp add: generateWeightBarcode_def)
next
  assume a: "length plu \<le> 6 \<and> w < 10 ^ 7"
  have "w < 10 ^ Suc 6" using a by simp
  then have "length (padZeros (show_nat w) (Suc 6)) = Suc 6"
    by (rule length_padZeros_show_nat)
  then have "length (padZeros (show_nat w) 7) = 7" by simp
  moreover have "length (padZeros plu 6) = 6" using a by (simp add: length_padZeros)
  ultimately show "length (''77'' @ padZeros plu 6 @ padZeros (show_nat w) 7 @ ''0'') = 16"
    by simp
next
  show "''77'' @ padZeros ''12345'' 6 @ padZeros (show_nat 1500) 7 @ ''0'' = ''7701234500015000''"
    by (simp add: padZeros_def show_nat_1500 replicate_numeral)
qed

theorem generateWeightBarcode_77_witness:
  "generateWeightBarcode (\<lambda>_. 0) ''77'' ''12345'' 1500 None =
     Inr \<lparr>wb_code = ''7701234500015000'', wb_format = ''CODE128'', wb_weight = 1500,
          wb_plu = ''12345'', wb_prefix = ''77'', wb_discount = None\<rparr>
   \<and> length ''7701234500015000'' = (16 :: nat)"
  using generateWeightBarcode_77 [of "\<lambda>_. 0" "''12345''" 1500 None]
  by (simp add: padZeros_def show_nat_1500 replicate_numeral)

text \<open>
  The code that claim C2 gives for this call, \<^verbatim>\<open>770001234500150000\<close>, has 18 characters;
  it is not what the generator returns.
\<close>

theorem generateWeightBarcode_77_example_counterexample:
  "wb_code (projr (generateWeightBarcode (\<lambda>_. 0) ''77'' ''12345'' 1500 None))
     \<noteq> ''770001234500150000''"
  by (simp add: generateWeightBarcode_def padZeros_def show_nat_1500 replicate_numeral)

lemma calcControlEAN13_digits:
  "length s = 12 \<Longrightarrow> list_all is_digit s \<Longrightarrow>
   calcControlEAN13 s = Inr ((10 - weighted_sum 0 s mod 10) mod 10)"
  by (auto simp: calcControlEAN13_def all_digits_def)

lemma calcControlEAN13_le_9: "calcControlEAN13 s = Inr c \<Longrightarrow> c \<le> 9"
  by (auto simp: calcControlEAN13_def split: if_splits)

lemma weight_code_22_digits:
  assumes "list_all is_digit plu" "length plu \<le> 5" "w < 10 ^ 5"
  shows "length (''22'' @ padZeros plu 5 @ padZeros (show_nat w) 5) = 12"
    and "list_all is_digit (''22'' @ padZeros plu 5 @ padZeros (show_nat w) 5)"
proof -
  have "w < 10 ^ Suc 4" using assms(3) by simp
  then have "length (padZeros (show_nat w) (Suc 4)) = Suc 4"
    by (rule length_padZeros_show_nat)
  then have lw: "length (padZeros (show_nat w) 5) = 5" by simp
  have lp: "length (padZeros plu 5) = 5" using assms(2) by (simp add: length_padZeros)
  show "length (''22'' @ padZeros plu 5 @ padZeros (show_nat w) 5) = 12"
    using lw lp by simp
  have "is_digit CHR ''2''" by (simp add: is_digit_def)
  then show "list_all is_digit (''22'' @ padZeros plu 5 @ padZeros (show_nat w) 5)"
    using assms(1) by (simp add: padZeros_digits show_nat_digits)
qed

text \<open>
  Claim C6, amended. The generator has no check of the prefix: every prefix other than
  \<^verbatim>\<open>77\<close> and \<^verbatim>\<open>49\<close> takes the EAN-13 branch, whose code is \<^verbatim>\<open>22\<close>, the PLU padded to
  5, the weight padded to 5 and the EAN-13 check digit, with the format \<^verbatim>\<open>EAN13\<close>, the
  result recording the prefix that was given. With a PLU of at most 5 digits and a weight
  below \<open>10 ^ 5\<close> the call returns this 13-character code and no error.
\<close>

theorem generateWeightBarcode_other_prefix:
  assumes "prefix \<noteq> ''77''" and "prefix \<noteq> ''49''"
  shows "generateWeightBarcode cc prefix plu w d =
           (case calcControlEAN13 (''22'' @ padZeros plu 5 @ padZeros (show_nat w) 5) of
              Inl e \<Rightarrow> Inl e
            | Inr c \<Rightarrow>
                Inr \<lparr>wb_code = ''22'' @ padZeros plu 5 @ padZeros (show_nat w) 5 @ show_nat c,
                     wb_format = ''EAN13'', wb_weight = w, wb_plu = plu, wb_prefix = prefix,
                     wb_discount = d\<rparr>)
         \<and> (list_all is_digit plu \<and> length plu \<le> 5 \<and> w < 10 ^ 5 \<longrightarrow>
              (\<exists>c. c \<le> 9 \<and>
                 generateWeightBarcode cc prefix plu w d =
                   Inr \<lparr>wb_code = ''22'' @ padZeros plu 5 @ padZeros (show_nat w) 5
                                  @ [digit_char c],
                        wb_format = ''EAN13'', wb_weight = w, wb_plu = plu, wb_prefix = prefix,
                        wb_discount = d\<rparr>
                 \<and> length (''22'' @ padZeros plu 5 @ padZeros (show_nat w) 5 @ [digit_char c])
                     = 13))"
proof (intro conjI impI)
  show eq: "generateWeightBarcode cc prefix plu w d =
           (case calcControlEAN13 (''22'' @ padZeros plu 5 @ padZeros (show_nat w) 5) of
              Inl e \<Rightarrow> Inl e
            | Inr c \<Rightarrow>
                Inr \<lparr>wb_code = ''22'' @ padZeros plu 5 @ padZeros (show_nat w) 5 @ show_nat c,
                     wb_format = ''EAN13'', wb_weight = w, wb_plu = plu, wb_prefix = prefix,
                     wb_discount = d\<rparr>)"
    using assms by (simp add: generateWeightBarcode_def split: sum.splits)
  assume a: "list_all is_digit plu \<and> length plu \<le> 5 \<and> w < 10 ^ 5"
  let ?code = "''22'' @ padZeros plu 5 @ padZeros (show_nat w) 5"
  let ?c = "(10 - weighted_sum 0 ?code mod 10) mod 10"
  have len: "length ?code = 12" and dig: "list_all is_digit ?code"
    using a weight_code_22_digits [of plu w] by blast+
  have c: "calcControlEAN13 ?code = Inr ?c"
    using len dig by (rule calcControlEAN13_digits)
  have c9: "?c \<le> 9" using c by (rule calcControlEAN13_le_9)
  then have sn: "show_nat ?c = [digit_char ?c]" by (simp add: show_nat_single)
  have "generateWeightBarcode cc prefix plu w d =
          Inr \<lparr>wb_code = ?code @ [digit_char ?c], wb_format = ''EAN13'', wb_weight = w,
               wb_plu = plu, wb_prefix = prefix, wb_discount = d\<rparr>"
    using eq c sn by simp
  moreover have "length (?code @ [digit_char ?c]) = 13" using len by simp
  ultimately show "\<exists>c. c \<le> 9 \<and>
                 generateWeightBarcode cc prefix plu w d =
                   Inr \<lparr>wb_code = ''22'' @ padZeros plu 5 @ padZeros (show_nat w) 5
                                  @ [digit_char c],
                        wb_format = ''EAN13'', wb_weight = w, wb_plu = plu, wb_prefix = prefix,
                        wb_discount = d\<rparr>
                 \<and> length (''22'' @ padZeros plu 5 @ padZeros (show_nat w) 5 @ [digit_char c])
                     = 13"
    using c9 by (intro exI [of _ ?c]) simp
qed

lemma calc_2212345: "calcControlEAN13 ''221234501500'' = Inr 9"
  by (simp add: calcControlEAN13_def all_digits_def is_digit_def digit_val_def)

theorem generateWeightBarcode_other_prefix_witness:
  "generateWeightBarcode (\<lambda>_. 0) ''99'' ''12345'' 1500 None =
     Inr \<lparr>wb_code = ''2212345015009'', wb_format = ''EAN13'', wb_weight = 1500,
          wb_plu = ''12345'', wb_prefix = ''99'', wb_discount = None\<rparr>"
  using generateWeightBarcode_other_prefix [of "''99''" "\<lambda>_. 0" "''12345''" 1500 None]
  by (simp add: padZeros_def show_nat_1500 replicate_numeral calc_2212345 show_nat_single
      digit_char_def)

text \<open>
  Claim C6 as stated fails: the unrecognised prefix \<^verbatim>\<open>99\<close> is not rejected, a payload
  comes back.
\<close>

theorem generateWeightBarcode_unknown_prefix_counterexample:
  "\<not> isl (generateWeightBarcode (\<lambda>_. 0) ''99'' ''12345'' 1500 None)
   \<and> wb_code (projr (generateWeightBarcode (\<lambda>_. 0) ''99'' ''12345'' 1500 None))
       = ''2212345015009''"
  by (simp add: generateWeightBarcode_def padZeros_def show_nat_1500 replicate_numeral
      calc_2212345 show_nat_single digit_char_def)

subsection \<open>Simple barcodes\<close>

lemma all_digits_trim: "all_digits s \<Longrightarrow> trim s = s"
  by (simp add: all_digits_def trim_digits)

text \<open>
  Claim C8. \<^verbatim>\<open>generateSimple\<close> trims its input; for the type \<^verbatim>\<open>EAN13\<close> and a trimmed
  value of exactly 12 digits it appends the EAN-13 check digit, and otherwise it returns
  the trimmed value unchanged. For every string \<open>d\<close> of 12 digits the check digit is a
  single digit, at most 9, and submitting the 13-digit code again returns it unaltered.
\<close>

theorem generateSimple_spec:
  "generateSimple v type =
     (if type = ''EAN13'' \<and> length (trim v) = 12 \<and> all_digits (trim v)
      then Inr \<lparr>sb_code = trim v @ [digit_char ((10 - weighted_sum 0 (trim v) mod 10) mod 10)],
                sb_format = type\<rparr>
      else Inr \<lparr>sb_code = trim v, sb_format = type\<rparr>)
   \<and> (length d = 12 \<and> all_digits d \<longrightarrow>
        (\<exists>c. calcControlEAN13 d = Inr c \<and> c \<le> 9 \<and> length (show_nat c) = 1
           \<and> generateSimple (d @ show_nat c) ''EAN13''
               = Inr \<lparr>sb_code = d @ show_nat c, sb_format = ''EAN13''\<rparr>))"
proof (intro conjI impI)
  show "generateSimple v type =
     (if type = ''EAN13'' \<and> length (trim v) = 12 \<and> all_digits (trim v)
      then Inr \<lparr>sb_code = trim v @ [digit_char ((10 - weighted_sum 0 (trim v) mod 10) mod 10)],
                sb_format = type\<rparr>
      else Inr \<lparr>sb_code = trim v, sb_format = type\<rparr>)"
  proof (cases "type = ''EAN13'' \<and> length (trim v) = 12 \<and> all_digits (trim v)")
    case True
    let ?c = "(10 - weighted_sum 0 (trim v) mod 10) mod 10"
    have c: "calcControlEAN13 (trim v) = Inr ?c"
      using True by (simp add: calcControlEAN13_def)
    have "?c \<le> 9" using c by (rule calcControlEAN13_le_9)
    then have "show_nat ?c = [digit_char ?c]" by (simp add: show_nat_single)
    with True c show ?thesis by (simp add: generateSimple_def Let_def)
  next
    case False
    then show ?thesis by (auto simp: generateSimple_def Let_def)
  qed
next
  assume a: "length d = 12 \<and> all_digits d"
  let ?c = "(10 - weighted_sum 0 d mod 10) mod 10"
  have c: "calcControlEAN13 d = Inr ?c"
    using a by (simp add: calcControlEAN13_def)
  have c9: "?c \<le> 9" using c by (rule calcControlEAN13_le_9)
  then have sn: "show_nat ?c = [digit_char ?c]" by (simp add: show_nat_single)
  have "list_all is_digit (d @ show_nat ?c)"
    using a by (simp add: all_digits_def show_nat_digits)
  then have tr: "trim (d @ show_nat ?c) = d @ show_nat ?c" by (rule trim_digits)
  have "length (d @ show_nat ?c) = 13" using a sn by simp
  then have "generateSimple (d @ show_nat ?c) ''EAN13''
               = Inr \<lparr>sb_code = d @ show_nat ?c, sb_format = ''EAN13''\<rparr>"
    using tr by (simp add: generateSimple_def Let_def)
  then show "\<exists>c. calcControlEAN13 d = Inr c \<and> c \<le> 9 \<and> length (show_nat c) = 1
           \<and> generateSimple (d @ show_nat c) ''EAN13''
               = Inr \<lparr>sb_code = d @ show_nat c, sb_format = ''EAN13''\<rparr>"
    using c c9 sn by (intro exI [of _ ?c]) simp
qed

lemma calc_590123412345: "calcControlEAN13 ''590123412345'' = Inr 7"
  by (simp add: calcControlEAN13_def all_digits_def is_digit_def digit_val_def)

theorem generateSimple_spec_witness:
  "generateSimple '' 590123412345 '' ''EAN13''
     = Inr \<lparr>sb_code = ''5901234123457'', sb_format = ''EAN13''\<rparr>
   \<and> calcControlEAN13 ''590123412345'' = Inr 7
   \<and> generateSimple ''5901234123457'' ''EAN13''
       = Inr \<lparr>sb_code = ''5901234123457'', sb_format = ''EAN13''\<rparr>"
proof -
  have d: "length ''590123412345'' = 12 \<and> all_digits ''590123412345''"
    by (simp add: all_digits_def is_digit_def)
  have t: "trim '' 590123412345 '' = ''590123412345''"
    by (simp add: trim_def is_space_def)
  have w: "weighted_sum 0 ''590123412345'' = 83"
    by (simp add: digit_val_def)
  from generateSimple_spec [of "'' 590123412345 ''" "''EAN13''" "''590123412345''"] d t w
  show ?thesis
    by (auto simp: calc_590123412345 show_nat_single digit_char_def)
qed

lemma strip_take_strip:
  "strip_non_digits (take n (strip_non_digits s)) = take n (strip_non_digits s)"
proof -
  have "\<forall>x \<in> set (take n (filter is_digit s)). is_digit x"
    by (auto dest: in_set_takeD)
  then show ?thesis
    unfolding strip_non_digits_def by (simp only: filter_True)
qed

lemma take_take_strip:
  "take 8 (strip_non_digits (take 8 (strip_non_digits s))) = take 8 (strip_non_digits s)"
  by (simp add: strip_take_strip)

subsection \<open>GS1 codes\<close>

text \<open>
  Claim C9. \<^verbatim>\<open>generateGS1Code\<close> raises an error exactly when the GoodsId has no digit
  (\<^verbatim>\<open>GoodsId is required\<close>) or, the GoodsId having one, the type is neither \<^verbatim>\<open>piece\<close>
  nor \<^verbatim>\<open>weight\<close> (\<^verbatim>\<open>Invalid type\<close>); in every other case it returns a code.
\<close>

theorem generateGS1Code_error_iff:
  "(generateGS1Code K rand params = Inl GoodsIdRequired
      \<longleftrightarrow> strip_non_digits (p_goodsId params) = [])
   \<and> (generateGS1Code K rand params = Inl InvalidType
      \<longleftrightarrow> strip_non_digits (p_goodsId params) \<noteq> []
          \<and> p_type params \<noteq> ''piece'' \<and> p_type params \<noteq> ''weight'')
   \<and> (isl (generateGS1Code K rand params)
      \<longleftrightarrow> strip_non_digits (p_goodsId params) = []
          \<or> (p_type params \<noteq> ''piece'' \<and> p_type params \<noteq> ''weight''))"
  by (auto simp: generateGS1Code_def Let_def)

lemma is_digit_simps:
  "is_digit CHR ''0''" "is_digit CHR ''1''" "is_digit CHR ''2''" "is_digit CHR ''3''"
  "is_digit CHR ''4''" "is_digit CHR ''5''" "is_digit CHR ''6''" "is_digit CHR ''7''"
  "is_digit CHR ''8''" "is_digit CHR ''9''" "\<not> is_digit CHR ''-''" "\<not> is_digit CHR ''.''"
  "\<not> is_digit CHR ''a''" "\<not> is_digit CHR '' ''"
  by (simp_all add: is_digit_def)

theorem generateGS1Code_error_iff_witness:
  "\<not> isl (generateGS1Code GS1_CONSTANTS (\<lambda>i. i)
        \<lparr>p_goodsId = ''123'', p_type = ''weight'', p_quantity = None, p_weight = Some 500,
         p_discount = None, p_uniqueId = [], p_decimalPosition = None\<rparr>)
   \<and> generateGS1Code GS1_CONSTANTS (\<lambda>i. i)
        \<lparr>p_goodsId = ''a-'', p_type = ''weight'', p_quantity = None, p_weight = Some 500,
         p_discount = None, p_uniqueId = [], p_decimalPosition = None\<rparr> = Inl GoodsIdRequired
   \<and> generateGS1Code GS1_CONSTANTS (\<lambda>i. i)
        \<lparr>p_goodsId = ''123'', p_type = ''box'', p_quantity = None, p_weight = Some 500,
         p_discount = None, p_uniqueId = [], p_decimalPosition = None\<rparr> = Inl InvalidType"
  using
    generateGS1Code_error_iff [of GS1_CONSTANTS "\<lambda>i. i"
        "\<lparr>p_goodsId = ''123'', p_type = ''weight'', p_quantity = None, p_weight = Some 500,
         p_discount = None, p_uniqueId = [], p_decimalPosition = None\<rparr>"]
    generateGS1Code_error_iff [of GS1_CONSTANTS "\<lambda>i. i"
        "\<lparr>p_goodsId = ''a-'', p_type = ''weight'', p_quantity = None, p_weight = Some 500,
         p_discount = None, p_uniqueId = [], p_decimalPosition = None\<rparr>"]
    generateGS1Code_error_iff [of GS1_CONSTANTS "\<lambda>i. i"
        "\<lparr>p_goodsId = ''123'', p_type = ''box'', p_quantity = None, p_weight = Some 500,
         p_discount = None, p_uniqueId = [], p_decimalPosition = None\<rparr>"]
  by (simp add: strip_non_digits_def is_digit_simps)

lemma discount_segments_goodsId:
  "discount_segments K rand (params\<lparr>p_goodsId := g\<rparr>) = discount_segments K rand params"
  by (simp add: discount_segments_def split: option.splits)

text \<open>
  Claim C10, amended. The result of \<^verbatim>\<open>generateGS1Code\<close>, a code or an error, is the one
  obtained with the GoodsId replaced by the first 8 of its digits; when the GoodsId has
  more than 8 digits and the type is \<^verbatim>\<open>piece\<close> or \<^verbatim>\<open>weight\<close>, the call succeeds with the
  8-digit GoodsId.
\<close>

theorem generateGS1Code_truncates:
  "generateGS1Code K rand params
     = generateGS1Code K rand
         (params\<lparr>p_goodsId := take 8 (strip_non_digits (p_goodsId params))\<rparr>)
   \<and> (8 < length (strip_non_digits (p_goodsId params))
        \<and> (p_type params = ''piece'' \<or> p_type params = ''weight'')
      \<longrightarrow> \<not> isl (generateGS1Code K rand params)
          \<and> length (take 8 (strip_non_digits (p_goodsId params))) = 8)"
proof (intro conjI impI)
  show "generateGS1Code K rand params
     = generateGS1Code K rand
         (params\<lparr>p_goodsId := take 8 (strip_non_digits (p_goodsId params))\<rparr>)"
    by (simp add: generateGS1Code_def discount_segments_goodsId take_take_strip Let_def)
next
  assume a: "8 < length (strip_non_digits (p_goodsId params))
        \<and> (p_type params = ''piece'' \<or> p_type params = ''weight'')"
  then have "strip_non_digits (p_goodsId params) \<noteq> []" by auto
  with a show "\<not> isl (generateGS1Code K rand params)"
    by (auto simp: generateGS1Code_def Let_def)
  from a show "length (take 8 (strip_non_digits (p_goodsId params))) = 8"
    by simp
qed

theorem generateGS1Code_truncates_witness:
  "generateGS1Code GS1_CONSTANTS (\<lambda>i. i)
     \<lparr>p_goodsId = ''1234-56789'', p_type = ''weight'', p_quantity = None, p_weight = Some 500,
      p_discount = None, p_uniqueId = [], p_decimalPosition = None\<rparr>
   = generateGS1Code GS1_CONSTANTS (\<lambda>i. i)
     \<lparr>p_goodsId = ''12345678'', p_type = ''weight'', p_quantity = None, p_weight = Some 500,
      p_discount = None, p_uniqueId = [], p_decimalPosition = None\<rparr>
   \<and> \<not> isl (generateGS1Code GS1_CONSTANTS (\<lambda>i. i)
     \<lparr>p_goodsId = ''1234-56789'', p_type = ''weight'', p_quantity = None, p_weight = Some 500,
      p_discount = None, p_uniqueId = [], p_decimalPosition = None\<rparr>)"
  using generateGS1Code_truncates [of GS1_CONSTANTS "\<lambda>i. i"
     "\<lparr>p_goodsId = ''1234-56789'', p_type = ''weight'', p_quantity = None, p_weight = Some 500,
      p_discount = None, p_uniqueId = [], p_decimalPosition = None\<rparr>"]
  by (auto simp: strip_non_digits_def is_digit_simps)

text \<open>
  Claim C10 as stated fails: a GoodsId of 9 digits does not make the call succeed when the
  type is unknown.
\<close>

theorem generateGS1Code_truncates_counterexample:
  "generateGS1Code GS1_CONSTANTS (\<lambda>i. i)
     \<lparr>p_goodsId = ''123456789'', p_type = ''box'', p_quantity = None, p_weight = None,
      p_discount = None, p_uniqueId = [], p_decimalPosition = None\<rparr> = Inl InvalidType
   \<and> length (strip_non_digits ''123456789'') = 9"
  by (simp add: generateGS1Code_def strip_non_digits_def is_digit_simps)



























subsection \<open>The GTIN of a DataMatrix code\<close>

lemma not_starts_ai01_Nil: "\<not> starts_ai01 []"
  by (simp add: starts_ai01_def)

lemma starts_ai01_hd: "starts_ai01 (c # cs) \<Longrightarrow> c = CHR ''0''"
  by (cases cs) (auto simp: starts_ai01_def)

lemma starts_ai01_intro:
  "length d = 14 \<Longrightarrow> list_all is_digit d \<Longrightarrow> starts_ai01 (''01'' @ d @ rest)"
  by (simp add: starts_ai01_def)

lemma match_ai01_leftmost:
  "starts_ai01 (drop i c) \<Longrightarrow> (\<forall>j<i. \<not> starts_ai01 (drop j c))
   \<Longrightarrow> match_ai01 c = Some (take 14 (drop (i + 2) c))"
proof (induction c arbitrary: i)
  case Nil
  then show ?case by (simp add: not_starts_ai01_Nil)
next
  case (Cons x xs)
  show ?case
  proof (cases i)
    case 0
    with Cons.prems(1) show ?thesis by simp
  next
    case (Suc k)
    have n0: "\<not> starts_ai01 (x # xs)"
      using Cons.prems(2) Suc by (metis drop0 zero_less_Suc)
    have s: "starts_ai01 (drop k xs)" using Cons.prems(1) Suc by simp
    have "\<forall>j<k. \<not> starts_ai01 (drop j xs)"
    proof (intro allI impI)
      fix j assume "j < k"
      then have "Suc j < i" using Suc by simp
      then have "\<not> starts_ai01 (drop (Suc j) (x # xs))" using Cons.prems(2) by blast
      then show "\<not> starts_ai01 (drop j xs)" by simp
    qed
    with s have "match_ai01 xs = Some (take 14 (drop (k + 2) xs))" by (rule Cons.IH)
    with n0 Suc show ?thesis by simp
  qed
qed

lemma match_ai01_Some:
  "match_ai01 c = Some d \<Longrightarrow>
   \<exists>pre rest. c = pre @ ''01'' @ d @ rest \<and> length d = 14 \<and> list_all is_digit d"
proof (induction c)
  case Nil
  then show ?case by simp
next
  case (Cons x xs)
  show ?case
  proof (cases "starts_ai01 (x # xs)")
    case True
    with Cons.prems have d: "d = take 14 (drop 2 (x # xs))" by simp
    from True have t: "take 2 (x # xs) = ''01''" and l: "length d = 14"
      and g: "list_all is_digit d"
      unfolding d by (simp_all add: starts_ai01_def)
    have "x # xs = take 2 (x # xs) @ take 14 (drop 2 (x # xs)) @ drop 14 (drop 2 (x # xs))"
      by (simp only: append_take_drop_id)
    then have "x # xs = [] @ ''01'' @ d @ drop 14 (drop 2 (x # xs))"
      using t d by simp
    with l g show ?thesis by blast
  next
    case False
    with Cons.prems have "match_ai01 xs = Some d" by simp
    then obtain pre rest where "xs = pre @ ''01'' @ d @ rest" "length d = 14"
        "list_all is_digit d"
      using Cons.IH by blast
    then have "x # xs = (x # pre) @ ''01'' @ d @ rest" by simp
    with \<open>length d = 14\<close> \<open>list_all is_digit d\<close> show ?thesis by blast
  qed
qed

lemma match_ai01_not_None:
  "length d = 14 \<Longrightarrow> list_all is_digit d \<Longrightarrow> match_ai01 (pre @ ''01'' @ d @ rest) \<noteq> None"
proof (induction pre)
  case Nil
  then have "starts_ai01 (''01'' @ d @ rest)" by (rule starts_ai01_intro)
  then show ?case by simp
next
  case (Cons x xs)
  then show ?case by simp
qed

lemma match_ai01_None_iff:
  "match_ai01 c = None \<longleftrightarrow>
   \<not> (\<exists>pre d rest. c = pre @ ''01'' @ d @ rest \<and> length d = 14 \<and> list_all is_digit d)"
proof
  assume "match_ai01 c = None"
  then show "\<not> (\<exists>pre d rest. c = pre @ ''01'' @ d @ rest \<and> length d = 14 \<and> list_all is_digit d)"
    using match_ai01_not_None by blast
next
  assume a: "\<not> (\<exists>pre d rest. c = pre @ ''01'' @ d @ rest \<and> length d = 14 \<and> list_all is_digit d)"
  show "match_ai01 c = None"
  proof (cases "match_ai01 c")
    case None
    then show ?thesis .
  next
    case (Some d)
    then show ?thesis using match_ai01_Some a by blast
  qed
qed

lemma match_ai01_prefix:
  assumes "CHR ''0'' \<notin> set pre" and "length d = 14" and "list_all is_digit d"
  shows "match_ai01 (pre @ ''01'' @ d @ rest) = Some d"
  using assms(1)
proof (induction pre)
  case Nil
  have "starts_ai01 (''01'' @ d @ rest)" using assms(2,3) by (rule starts_ai01_intro)
  then show ?case using assms(2) by simp
next
  case (Cons x xs)
  then have "x \<noteq> CHR ''0''" by auto
  then have "\<not> starts_ai01 ((x # xs) @ ''01'' @ d @ rest)"
    using starts_ai01_hd [of x "xs @ ''01'' @ d @ rest"] by auto
  with Cons show ?case by simp
qed

lemma ean12_of_gtin14:
  "length d = 14 \<Longrightarrow> list_all is_digit d \<Longrightarrow>
   length (take 12 (drop 1 d)) = 12 \<and> list_all is_digit (take 12 (drop 1 d))"
  by (auto simp: list_all_iff dest!: in_set_takeD in_set_dropD)

lemma extractEAN13FromDM_Some:
  assumes "match_ai01 c = Some d"
  shows "extractEAN13FromDM c =
     Inr (Some (take 12 (drop 1 d)
        @ [digit_char ((10 - weighted_sum 0 (take 12 (drop 1 d)) mod 10) mod 10)]))"
proof -
  let ?e = "take 12 (drop 1 d)"
  let ?c = "(10 - weighted_sum 0 ?e mod 10) mod 10"
  from assms obtain pre rest where "length d = 14" "list_all is_digit d"
    using match_ai01_Some by blast
  then have "length ?e = 12" "list_all is_digit ?e"
    using ean12_of_gtin14 by blast+
  then have c: "calcControlEAN13 ?e = Inr ?c" by (rule calcControlEAN13_digits)
  then have "?c \<le> 9" by (rule calcControlEAN13_le_9)
  then have "show_nat ?c = [digit_char ?c]" by (simp add: show_nat_single)
  with c assms show ?thesis by (simp add: extractEAN13FromDM_def Let_def)
qed

lemma extractEAN13FromDM_total: "\<exists>r. extractEAN13FromDM c = Inr r"
proof (cases "match_ai01 c")
  case None
  then show ?thesis by (simp add: extractEAN13FromDM_def)
next
  case (Some d)
  then show ?thesis using extractEAN13FromDM_Some by blast
qed

lemma digit_char_digit_val: "is_digit c \<Longrightarrow> digit_char (digit_val c) = c"
  by (auto simp: is_digit_def digit_char_def digit_val_def)

lemma padZeros_13_14: "length g = 13 \<Longrightarrow> padZeros g 14 = CHR ''0'' # g"
  by (simp add: padZeros_def)

lemma generateDM_Some:
  assumes "TEMPLATES cfg (if templateId \<noteq> [] then templateId else dm_selectedTemplate s) = Some t"
    and "barcode \<noteq> []"
  shows "generateDM cfg barcode templateId s =
     (Inr \<lparr>r_code = t_generate t (seed s) barcode, r_templateName = t_name t,
           r_barcode = barcode, r_displayAsEan = False, r_ean13Code = None\<rparr>,
      s\<lparr>seed := seed s + 1,
        history := history s @ [\<lparr>h_type = ''DM'', h_code = t_generate t (seed s) barcode\<rparr>]\<rparr>)"
  using assms by (simp add: generateDM_def addToHistory_def Let_def)

lemma extractEAN13FromDM_None_iff:
  "extractEAN13FromDM c = Inr None \<longleftrightarrow> match_ai01 c = None"
proof (cases "match_ai01 c")
  case None
  then show ?thesis by (simp add: extractEAN13FromDM_def)
next
  case (Some d)
  then show ?thesis using extractEAN13FromDM_Some [OF Some] by simp
qed

lemma extract_valid_gtin:
  assumes "length g = 13" and "list_all is_digit g"
    and "calcControlEAN13 (take 12 g) = Inr (digit_val (g ! 12))"
    and "\<forall>j<length pre. \<not> starts_ai01 (drop j (pre @ ''01'' @ padZeros g 14 @ rest))"
  shows "extractEAN13FromDM (pre @ ''01'' @ padZeros g 14 @ rest) = Inr (Some g)"
proof -
  let ?d = "CHR ''0'' # g"
  let ?c = "pre @ ''01'' @ ?d @ rest"
  have p: "padZeros g 14 = ?d" using assms(1) by (rule padZeros_13_14)
  have l: "length ?d = 14" using assms(1) by simp
  moreover have "list_all is_digit ?d" using assms(2) by (simp add: is_digit_zero)
  ultimately have "starts_ai01 (''01'' @ ?d @ rest)" by (rule starts_ai01_intro)
  then have "starts_ai01 (drop (length pre) ?c)" by simp
  moreover have "\<forall>j<length pre. \<not> starts_ai01 (drop j ?c)"
    using assms(4) unfolding p .
  ultimately have "match_ai01 ?c = Some (take 14 (drop (length pre + 2) ?c))"
    by (rule match_ai01_leftmost)
  moreover have "take 14 (drop (length pre + 2) ?c) = ?d"
    using assms(1) by simp
  ultimately have m: "match_ai01 ?c = Some ?d" by simp
  have g12: "is_digit (g ! 12)"
    using assms(1,2) by (simp add: list_all_length)
  then have "digit_val (g ! 12) \<le> 9"
    using assms(3) calcControlEAN13_le_9 by blast
  then have sn: "show_nat (digit_val (g ! 12)) = [g ! 12]"
    using g12 by (simp add: show_nat_single digit_char_digit_val)
  have "12 < length g" using assms(1) by simp
  then have "take (Suc 12) g = take 12 g @ [g ! 12]" by (rule take_Suc_conv_app_nth)
  moreover have "take (Suc 12) g = g" using assms(1) by simp
  ultimately have tg: "take 12 g @ [g ! 12] = g" by metis
  show ?thesis
    unfolding p using m assms(3) sn tg by (simp add: extractEAN13FromDM_def)
qed

text \<open>
  Claim C4, amended. For a GTIN \<open>g\<close> of 13 digits whose last digit is its EAN-13 check
  digit, and a template whose code has the marker \<^verbatim>\<open>01\<close> and \<open>g\<close> padded with zeros to 14
  digits, no earlier place of the code reading \<^verbatim>\<open>01\<close> and 14 digits,
  \<^verbatim>\<open>extractEAN13FromDM\<close> applied to the code that \<^verbatim>\<open>generateDM\<close> returns gives \<open>g\<close> back.
  In general, \<^verbatim>\<open>extractEAN13FromDM\<close> returns \<^verbatim>\<open>null\<close> exactly when no \<^verbatim>\<open>01\<close> is followed by 14
  digits anywhere in the code; otherwise it takes the leftmost such place (position \<open>i\<close>),
  which need not be the AI 01 field, drops the first of the 14 digits, and returns the
  next 12 with their EAN-13 check digit.
\<close>

theorem extractEAN13FromDM_roundtrip:
  assumes "TEMPLATES cfg (if templateId \<noteq> [] then templateId else dm_selectedTemplate s) = Some t"
    and "length g = 13" and "list_all is_digit g"
    and "calcControlEAN13 (take 12 g) = Inr (digit_val (g ! 12))"
    and "t_generate t (seed s) g = pre @ ''01'' @ padZeros g 14 @ rest"
    and "\<forall>j<length pre. \<not> starts_ai01 (drop j (t_generate t (seed s) g))"
  shows "(\<exists>r s'. generateDM cfg g templateId s = (Inr r, s') \<and> r_barcode r = g
            \<and> r_code r = t_generate t (seed s) g
            \<and> extractEAN13FromDM (r_code r) = Inr (Some g))
       \<and> (extractEAN13FromDM c = Inr None \<longleftrightarrow>
            \<not> (\<exists>p d q. c = p @ ''01'' @ d @ q \<and> length d = 14 \<and> list_all is_digit d))
       \<and> (starts_ai01 (drop i c) \<and> (\<forall>j<i. \<not> starts_ai01 (drop j c)) \<longrightarrow>
            extractEAN13FromDM c =
              Inr (Some (take 12 (drop (i + 3) c)
                 @ [digit_char ((10 - weighted_sum 0 (take 12 (drop (i + 3) c)) mod 10) mod 10)])))"
proof (intro conjI impI)
  have "g \<noteq> []" using assms(2) by auto
  with assms(1) have "generateDM cfg g templateId s =
     (Inr \<lparr>r_code = t_generate t (seed s) g, r_templateName = t_name t,
           r_barcode = g, r_displayAsEan = False, r_ean13Code = None\<rparr>,
      s\<lparr>seed := seed s + 1,
        history := history s @ [\<lparr>h_type = ''DM'', h_code = t_generate t (seed s) g\<rparr>]\<rparr>)"
    by (rule generateDM_Some)
  moreover have "extractEAN13FromDM (t_generate t (seed s) g) = Inr (Some g)"
    using assms(6) unfolding assms(5) by (rule extract_valid_gtin [OF assms(2,3,4)])
  ultimately show "\<exists>r s'. generateDM cfg g templateId s = (Inr r, s') \<and> r_barcode r = g
            \<and> r_code r = t_generate t (seed s) g
            \<and> extractEAN13FromDM (r_code r) = Inr (Some g)"
    by simp
next
  show "extractEAN13FromDM c = Inr None \<longleftrightarrow>
            \<not> (\<exists>p d q. c = p @ ''01'' @ d @ q \<and> length d = 14 \<and> list_all is_digit d)"
    by (simp only: extractEAN13FromDM_None_iff match_ai01_None_iff)
next
  assume a: "starts_ai01 (drop i c) \<and> (\<forall>j<i. \<not> starts_ai01 (drop j c))"
  then have m: "match_ai01 c = Some (take 14 (drop (i + 2) c))"
    by (intro match_ai01_leftmost) simp_all
  have "take 12 (drop 1 (take 14 (drop (i + 2) c))) = take 12 (drop (i + 3) c)"
    by (simp add: drop_take numeral_3_eq_3)
  with extractEAN13FromDM_Some [OF m]
  show "extractEAN13FromDM c =
              Inr (Some (take 12 (drop (i + 3) c)
                 @ [digit_char ((10 - weighted_sum 0 (take 12 (drop (i + 3) c)) mod 10) mod 10)]))"
    by simp
qed

lemma calc_481009900331: "calcControlEAN13 ''481009900331'' = Inr 0"
  by (simp add: calcControlEAN13_def all_digits_def is_digit_def digit_val_def)

lemma show_nat_0: "show_nat 0 = ''0''"
  by (simp add: show_nat.simps digit_char_def)

lemma dated_template_code:
  "t_generate (dated_template date) 0 ''4810099003310''
     = (''17'' @ date) @ ''01'' @ padZeros ''4810099003310'' 14 @ ''21000000''"
  by (simp add: dated_template_def padZeros_def show_nat_0 replicate_numeral)

theorem extractEAN13FromDM_roundtrip_witness:
  "extractEAN13FromDM
     (r_code (projr (fst (generateDM (dated_config ''260228'') ''4810099003310'' ''type2''
        idle_state))))
   = Inr (Some ''4810099003310'')
   \<and> r_code (projr (fst (generateDM (dated_config ''260228'') ''4810099003310'' ''type2''
        idle_state)))
   = ''172602280104810099003310'' @ ''21000000''
   \<and> extractEAN13FromDM ''21ABC'' = Inr None"
proof -
  have t: "TEMPLATES (dated_config ''260228'')
      (if ''type2'' \<noteq> [] then ''type2'' else dm_selectedTemplate idle_state)
      = Some (dated_template ''260228'')"
    by (simp add: dated_config_def)
  have g: "length ''4810099003310'' = 13" "list_all is_digit ''4810099003310''"
    by (simp_all add: is_digit_simps)
  have c: "calcControlEAN13 (take 12 ''4810099003310'') = Inr (digit_val (''4810099003310'' ! 12))"
    by (simp add: calc_481009900331 digit_val_def)
  have s0: "seed idle_state = 0" by (simp add: idle_state_def)
  have l: "t_generate (dated_template ''260228'') (seed idle_state) ''4810099003310''
      = (''17'' @ ''260228'') @ ''01'' @ padZeros ''4810099003310'' 14 @ ''21000000''"
    unfolding s0 by (rule dated_template_code)
  have z: "\<forall>j<length (''17'' @ ''260228'').
      \<not> starts_ai01 (drop j (t_generate (dated_template ''260228'') (seed idle_state)
                                ''4810099003310''))"
    unfolding l by (simp add: All_less_Suc starts_ai01_def padZeros_def)
  have n: "\<not> (\<exists>p d q. ''21ABC'' = p @ ''01'' @ d @ q \<and> length d = 14 \<and> list_all is_digit d)"
  proof
    assume "\<exists>p d q. ''21ABC'' = p @ ''01'' @ d @ q \<and> length d = 14 \<and> list_all is_digit d"
    then obtain p d q where "''21ABC'' = p @ ''01'' @ d @ q" "length d = 14" by blast
    then have "length ''21ABC'' = length (p @ ''01'' @ d @ q)" by simp
    with \<open>length d = 14\<close> show False by simp
  qed
  from extractEAN13FromDM_roundtrip [OF t g c l z, of "''21ABC''" 0] n
  show ?thesis
    by (auto simp: dated_template_def s0 padZeros_def show_nat_0 replicate_numeral)
qed

text \<open>
  Claim C4 as stated fails: a layout that embeds AI 01 and the padded GTIN after the
  expiry date \<^verbatim>\<open>17260101\<close> has an earlier \<^verbatim>\<open>01\<close> followed by 14 digits, inside the
  date, and the extraction returns the 13 digits read from there.
\<close>

lemma calc_101048100990: "calcControlEAN13 ''101048100990'' = Inr 3"
  by (simp add: calcControlEAN13_def all_digits_def is_digit_def digit_val_def)

theorem extractEAN13FromDM_roundtrip_counterexample:
  "r_code (projr (fst (generateDM (dated_config ''260101'') ''4810099003310'' ''type2''
        idle_state)))
   = ''17260101'' @ ''01'' @ ''04810099003310'' @ ''21000000''
   \<and> extractEAN13FromDM
     (r_code (projr (fst (generateDM (dated_config ''260101'') ''4810099003310'' ''type2''
        idle_state))))
   = Inr (Some ''1010481009903'')
   \<and> calcControlEAN13 (take 12 ''4810099003310'') = Inr (digit_val (''4810099003310'' ! 12))"
proof -
  have t: "TEMPLATES (dated_config ''260101'')
      (if ''type2'' \<noteq> [] then ''type2'' else dm_selectedTemplate idle_state)
      = Some (dated_template ''260101'')"
    by (simp add: dated_config_def)
  have s0: "seed idle_state = 0" by (simp add: idle_state_def)
  have r: "r_code (projr (fst (generateDM (dated_config ''260101'') ''4810099003310'' ''type2''
        idle_state)))
      = ''17260101'' @ ''01'' @ ''04810099003310'' @ ''21000000''"
    unfolding generateDM_Some [OF t, of "''4810099003310''", simplified] s0
    by (simp add: dated_template_def padZeros_def show_nat_0 replicate_numeral)
  have m: "match_ai01 (''17260101'' @ ''01'' @ ''04810099003310'' @ ''21000000'')
      = Some ''01010481009900''"
    by (simp add: starts_ai01_def is_digit_simps)
  have e: "extractEAN13FromDM (''17260101'' @ ''01'' @ ''04810099003310'' @ ''21000000'')
      = Inr (Some ''1010481009903'')"
    using m by (simp add: extractEAN13FromDM_def calc_101048100990 show_nat.simps digit_char_def)
  have c: "calcControlEAN13 (take 12 ''4810099003310'') = Inr (digit_val (''4810099003310'' ! 12))"
    by (simp add: calc_481009900331 digit_val_def)
  from r e c show ?thesis by simp
qed

section \<open>Properties of the controllers\<close>

subsection \<open>Replay from the cache and the timers\<close>

lemma displayFromCache_cases:
  obtains (skip) "index < 0 \<or> index \<ge> int (length (dm_generatedCodes s))"
      "displayFromCache cfg index s = (Inr (), s)"
  | (shown) e where "0 \<le> index" "index < int (length (dm_generatedCodes s))"
      "displayFromCache cfg index s =
         (Inr (),
          s\<lparr>dm_codeHistoryIndex := index,
            primary_render :=
              (if c_primaryDisplayAsEan (dm_generatedCodes s ! nat index) then (EAN13, e)
               else (DM, Some (c_code (dm_generatedCodes s ! nat index)))),
            secondary_render :=
              (if c_doubleScanMode (dm_generatedCodes s ! nat index) \<noteq> None
                  \<and> c_secondaryCode (dm_generatedCodes s ! nat index) \<noteq> None
               then map_option render_of (c_secondaryCode (dm_generatedCodes s ! nat index))
               else None),
            current_code := c_code (dm_generatedCodes s ! nat index),
            secondary_code_text :=
              map_option (\<lambda>sec. case sec_code sec of None \<Rightarrow> [] | Some c \<Rightarrow> c)
                (c_secondaryCode (dm_generatedCodes s ! nat index)),
            info := Some \<lparr>ci_barcode = c_barcode (dm_generatedCodes s ! nat index),
                          ci_templateName = c_templateName (dm_generatedCodes s ! nat index),
                          ci_index = c_rotationIdx (dm_generatedCodes s ! nat index) + 1,
                          ci_total = (if dm_rotationList s \<noteq> [] then length (dm_rotationList s)
                                      else length (DEMO_GTINS cfg))\<rparr>\<rparr>)"
proof (cases "index < 0 \<or> index \<ge> int (length (dm_generatedCodes s))")
  case True
  then have "displayFromCache cfg index s = (Inr (), s)"
    by (simp add: displayFromCache_def)
  with True show ?thesis by (rule skip)
next
  case False
  let ?c = "dm_generatedCodes s ! nat index"
  obtain e where e: "extractEAN13FromDM (c_code ?c) = Inr e"
    using extractEAN13FromDM_total by blast
  have "displayFromCache cfg index s =
         (Inr (),
          s\<lparr>dm_codeHistoryIndex := index,
            primary_render :=
              (if c_primaryDisplayAsEan ?c then (EAN13, e) else (DM, Some (c_code ?c))),
            secondary_render :=
              (if c_doubleScanMode ?c \<noteq> None \<and> c_secondaryCode ?c \<noteq> None
               then map_option render_of (c_secondaryCode ?c) else None),
            current_code := c_code ?c,
            secondary_code_text :=
              map_option (\<lambda>sec. case sec_code sec of None \<Rightarrow> [] | Some c \<Rightarrow> c)
                (c_secondaryCode ?c),
            info := Some \<lparr>ci_barcode = c_barcode ?c, ci_templateName = c_templateName ?c,
                          ci_index = c_rotationIdx ?c + 1,
                          ci_total = (if dm_rotationList s \<noteq> [] then length (dm_rotationList s)
                                      else length (DEMO_GTINS cfg))\<rparr>\<rparr>)"
    using False e by (simp add: displayFromCache_def Let_def updateCodeText_def)
  with False show ?thesis by (intro shown) simp_all
qed

lemma displayFromCache_ok: "fst (displayFromCache cfg index s) = Inr ()"
  by (cases cfg index s rule: displayFromCache_cases) simp_all

lemma displayFromCache_frame:
  "dm_timerValue (snd (displayFromCache cfg index s)) = dm_timerValue s"
  "dm_remaining (snd (displayFromCache cfg index s)) = dm_remaining s"
  "dm_timerInterval (snd (displayFromCache cfg index s)) = dm_timerInterval s"
  "timers (snd (displayFromCache cfg index s)) = timers s"
  "history (snd (displayFromCache cfg index s)) = history s"
  "seed (snd (displayFromCache cfg index s)) = seed s"
  "dm_generatedCodes (snd (displayFromCache cfg index s)) = dm_generatedCodes s"
  "dm_rotationList (snd (displayFromCache cfg index s)) = dm_rotationList s"
  "dm_rotationIndex (snd (displayFromCache cfg index s)) = dm_rotationIndex s"
  "dm_isRotating (snd (displayFromCache cfg index s)) = dm_isRotating s"
  "gs1_rotationItems (snd (displayFromCache cfg index s)) = gs1_rotationItems s"
  "gs1_remaining (snd (displayFromCache cfg index s)) = gs1_remaining s"
  by (cases cfg index s rule: displayFromCache_cases; simp)+

lemma and_then_Inr: "fst m = Inr a \<Longrightarrow> and_then m f = f a (snd m)"
  by (cases m) (simp add: and_then_def)

lemma and_then_Inl: "fst m = Inl e \<Longrightarrow> and_then m f = (Inl e, snd m)"
  by (cases m) (simp add: and_then_def)

lemma dm_startTimer_result:
  "fst (dm_startTimer cfg s) = Inr ()"
  "dm_timerValue (snd (dm_startTimer cfg s)) = dm_timerValue s"
  "dm_remaining (snd (dm_startTimer cfg s)) = dm_timerValue s"
  "dm_timerInterval (snd (dm_startTimer cfg s)) = Some (timers s)"
  "timers (snd (dm_startTimer cfg s)) = timers s + 1"
proof -
  define n where "n = int (length (dm_generatedCodes (dm_stopTimer s)))"
  define m where "m =
    (if dm_generatedCodes (dm_stopTimer s) \<noteq> [] \<and> dm_codeHistoryIndex (dm_stopTimer s) < n - 1
     then displayFromCache cfg (n - 1) ((dm_stopTimer s)\<lparr>dm_codeHistoryIndex := n - 1\<rparr>)
     else (Inr (), dm_stopTimer s))"
  have ok: "fst m = Inr ()"
    by (simp add: m_def displayFromCache_ok)
  have f: "dm_timerValue (snd m) = dm_timerValue s" "timers (snd m) = timers s"
    by (simp_all add: m_def displayFromCache_frame dm_stopTimer_def)
  have "dm_startTimer cfg s =
      and_then m (\<lambda>_ s. (Inr (), s\<lparr>dm_remaining := dm_timerValue s,
                                    dm_timerInterval := Some (timers s),
                                    timers := timers s + 1\<rparr>))"
    by (simp add: dm_startTimer_def Let_def m_def n_def)
  then have r: "dm_startTimer cfg s =
      (Inr (), (snd m)\<lparr>dm_remaining := dm_timerValue (snd m),
                        dm_timerInterval := Some (timers (snd m)),
                        timers := timers (snd m) + 1\<rparr>)"
    using ok by (simp add: and_then_Inr)
  show "fst (dm_startTimer cfg s) = Inr ()"
    "dm_timerValue (snd (dm_startTimer cfg s)) = dm_timerValue s"
    "dm_remaining (snd (dm_startTimer cfg s)) = dm_timerValue s"
    "dm_timerInterval (snd (dm_startTimer cfg s)) = Some (timers s)"
    "timers (snd (dm_startTimer cfg s)) = timers s + 1"
    using f by (simp_all add: r)
qed

text \<open>
  Claim C5, amended. \<^verbatim>\<open>setInterval\<close> with \<^verbatim>\<open>NaN\<close> or a value that is not positive changes
  nothing, in the DataMatrix controller and in the GS1 controller. With a positive value
  the DataMatrix controller stores it as timer value and as remaining time and arms a new
  timer, whether or not a timer was running; the GS1 controller stores it as timer value
  and restarts its timer when a rotation is active (\<^verbatim>\<open>isRotating\<close>), and does nothing
  else when none is.
\<close>

theorem setInterval_spec:
  "(v = NaN \<or> (\<exists>y. v = Num y \<and> y \<le> 0) \<longrightarrow>
      dm_setInterval cfg v s = (Inr (), s) \<and> gs1_setInterval v s = s)
   \<and> (0 < x \<longrightarrow>
        fst (dm_setInterval cfg (Num x) s) = Inr ()
        \<and> dm_timerValue (snd (dm_setInterval cfg (Num x) s)) = x
        \<and> dm_remaining (snd (dm_setInterval cfg (Num x) s)) = x
        \<and> dm_timerInterval (snd (dm_setInterval cfg (Num x) s)) = Some (timers s)
        \<and> timers (snd (dm_setInterval cfg (Num x) s)) = timers s + 1
        \<and> gs1_timerValue (gs1_setInterval (Num x) s) = x
        \<and> (gs1_isRotating s \<longrightarrow>
              gs1_setInterval (Num x) s
                = s\<lparr>gs1_timerValue := x, gs1_timerInterval := None, gs1_remaining := x,
                    gs1_timerInterval := Some (timers s), timers := timers s + 1\<rparr>)
        \<and> (\<not> gs1_isRotating s \<longrightarrow> gs1_setInterval (Num x) s = s\<lparr>gs1_timerValue := x\<rparr>))"
proof (intro conjI impI)
  assume "v = NaN \<or> (\<exists>y. v = Num y \<and> y \<le> 0)"
  then show "dm_setInterval cfg v s = (Inr (), s)" "gs1_setInterval v s = s"
    by (auto simp: dm_setInterval_def gs1_setInterval_def)
next
  assume x: "0 < x"
  let ?s = "s\<lparr>dm_timerValue := x, dm_remaining := x\<rparr>"
  have d: "dm_setInterval cfg (Num x) s = dm_startTimer cfg ?s"
    using x by (simp add: dm_setInterval_def)
  show "fst (dm_setInterval cfg (Num x) s) = Inr ()"
    unfolding d by (rule dm_startTimer_result)
  show "dm_timerValue (snd (dm_setInterval cfg (Num x) s)) = x"
    unfolding d by (simp add: dm_startTimer_result)
  show "dm_remaining (snd (dm_setInterval cfg (Num x) s)) = x"
    unfolding d by (simp add: dm_startTimer_result)
  show "dm_timerInterval (snd (dm_setInterval cfg (Num x) s)) = Some (timers s)"
    unfolding d by (simp add: dm_startTimer_result)
  show "timers (snd (dm_setInterval cfg (Num x) s)) = timers s + 1"
    unfolding d by (simp add: dm_startTimer_result)
  show "gs1_timerValue (gs1_setInterval (Num x) s) = x"
    using x by (simp add: gs1_setInterval_def gs1_startTimer_def gs1_stopTimer_def Let_def)
  show "gs1_setInterval (Num x) s
          = s\<lparr>gs1_timerValue := x, gs1_timerInterval := None, gs1_remaining := x,
              gs1_timerInterval := Some (timers s), timers := timers s + 1\<rparr>"
    if "gs1_isRotating s"
    using x that by (simp add: gs1_setInterval_def gs1_startTimer_def gs1_stopTimer_def Let_def)
  show "gs1_setInterval (Num x) s = s\<lparr>gs1_timerValue := x\<rparr>" if "\<not> gs1_isRotating s"
    using x that by (simp add: gs1_setInterval_def Let_def)
qed

theorem setInterval_spec_witness:
  "dm_setInterval example_config (Num (- 1)) idle_state = (Inr (), idle_state)
   \<and> gs1_setInterval (Num (- 1)) idle_state = idle_state
   \<and> dm_timerValue (snd (dm_setInterval example_config (Num 2) idle_state)) = 2
   \<and> dm_timerInterval (snd (dm_setInterval example_config (Num 2) idle_state)) = Some 0
   \<and> gs1_timerValue (gs1_setInterval (Num 2) idle_state) = 2
   \<and> gs1_timerInterval (gs1_setInterval (Num 2) idle_state) = None"
  using setInterval_spec [of "Num (- 1)" example_config idle_state 2]
  by (simp add: idle_state_def)

text \<open>
  Claim C5 as stated fails in the DataMatrix controller: with no timer running, a positive
  interval starts one.
\<close>

theorem setInterval_paused_counterexample:
  "dm_timerInterval idle_state = None
   \<and> dm_timerInterval (snd (dm_setInterval example_config (Num 2) idle_state)) = Some 0"
  by (simp add: dm_setInterval_def dm_startTimer_def dm_stopTimer_def and_then_def
      idle_state_def)

subsection \<open>The activity log\<close>

lemma logs_generated_refl: "logs_generated s s"
  by (simp add: logs_generated_def)

lemma logs_generated_trans:
  "logs_generated s s' \<Longrightarrow> logs_generated s' s'' \<Longrightarrow> logs_generated s s''"
  by (auto simp: logs_generated_def)

lemma logs_generated_same:
  "seed s' = seed s \<Longrightarrow> history s' = history s \<Longrightarrow> logs_generated s s'"
  by (simp add: logs_generated_def)

lemma getNextDemoGtin_frame:
  "seed (snd (getNextDemoGtin cfg s)) = seed s"
  "history (snd (getNextDemoGtin cfg s)) = history s"
  by (simp_all add: getNextDemoGtin_def)

lemma generateDM_Inr:
  assumes "generateDM cfg b t s = (Inr r, s')"
  shows "history s' = history s @ [\<lparr>h_type = ''DM'', h_code = r_code r\<rparr>]"
    and "seed s' = seed s + 1"
  using assms
  by (auto simp: generateDM_def Let_def addToHistory_def getNextDemoGtin_def
      split: option.splits if_splits prod.splits)

lemma generateDM_Inl:
  assumes "generateDM cfg b t s = (Inl e, s')"
  shows "history s' = history s" and "seed s' = seed s"
  using assms
  by (auto simp: generateDM_def Let_def addToHistory_def getNextDemoGtin_def
      split: option.splits if_splits prod.splits)

lemma generateDM_logs: "logs_generated s (snd (generateDM cfg b t s))"
proof (cases "generateDM cfg b t s")
  case (Pair r s')
  show ?thesis
  proof (cases r)
    case (Inl e)
    with Pair have "history s' = history s" "seed s' = seed s"
      using generateDM_Inl by blast+
    with Pair show ?thesis by (simp add: logs_generated_def)
  next
    case (Inr res)
    with Pair have "history s' = history s @ [\<lparr>h_type = ''DM'', h_code = r_code res\<rparr>]"
        "seed s' = seed s + 1"
      using generateDM_Inr by blast+
    with Pair show ?thesis by (simp add: logs_generated_def)
  qed
qed

lemma and_then_logs:
  assumes "logs_generated s (snd m)"
    and "\<And>a. fst m = Inr a \<Longrightarrow> logs_generated (snd m) (snd (f a (snd m)))"
  shows "logs_generated s (snd (and_then m f))"
proof (cases "fst m")
  case (Inl e)
  then show ?thesis using assms(1) by (simp add: and_then_Inl)
next
  case (Inr a)
  then have "logs_generated (snd m) (snd (f a (snd m)))" by (rule assms(2))
  with assms(1) have "logs_generated s (snd (f a (snd m)))" by (rule logs_generated_trans)
  with Inr show ?thesis by (simp add: and_then_Inr)
qed

lemma and_then_logs_pure:
  assumes "logs_generated s (snd m)"
    and "\<And>a st. seed (snd (f a st)) = seed st \<and> history (snd (f a st)) = history st"
  shows "logs_generated s (snd (and_then m f))"
  using assms(1)
proof (rule and_then_logs)
  fix a
  show "logs_generated (snd m) (snd (f a (snd m)))"
    by (rule logs_generated_same) (simp_all add: assms(2))
qed

lemma primary_code_logs: "logs_generated s (snd (primary_code cfg s))"
proof (cases "dm_isRotating s \<and> dm_rotationList s \<noteq> []")
  case True
  show ?thesis
  proof (cases "dm_rotationIndex s < length (dm_rotationList s)")
    case True
    have "logs_generated s (snd (and_then
        (generateDM cfg (i_barcode (dm_rotationList s ! dm_rotationIndex s))
           (i_template (dm_rotationList s ! dm_rotationIndex s)) s)
        (\<lambda>result s'.
            (Inr (result, i_barcode (dm_rotationList s ! dm_rotationIndex s),
                  dm_rotationIndex s'),
             s'\<lparr>dm_rotationIndex :=
                  (dm_rotationIndex s' + 1) mod length (dm_rotationList s')\<rparr>))))"
      by (rule and_then_logs_pure [OF generateDM_logs]) simp
    with True \<open>dm_isRotating s \<and> dm_rotationList s \<noteq> []\<close> show ?thesis
      by (simp add: primary_code_def Let_def)
  next
    case False
    with True show ?thesis by (simp add: primary_code_def logs_generated_refl)
  qed
next
  case False
  have "logs_generated s (snd (and_then (generateDM cfg [] [] s)
      (\<lambda>result s. (Inr (result, [], 0 :: nat), s))))"
    by (rule and_then_logs_pure [OF generateDM_logs]) simp
  with False show ?thesis by (auto simp: primary_code_def)
qed

lemma secondary_code_logs:
  "logs_generated s (snd (secondary_code cfg mode result barcode s))"
proof (cases mode)
  case None
  then show ?thesis by (simp add: secondary_code_def logs_generated_refl)
next
  case (Some m)
  show ?thesis
  proof (cases m)
    case sameDM
    with Some show ?thesis by (simp add: secondary_code_def logs_generated_refl)
  next
    case dmEan
    with Some show ?thesis
      by (auto simp: secondary_code_def logs_generated_refl split: sum.splits)
  next
    case sameEan
    with Some show ?thesis
      by (auto simp: secondary_code_def logs_generated_refl split: sum.splits)
  next
    case differentDM
    show ?thesis
    proof (cases "dm_isRotating s")
      case True
      show ?thesis
      proof (cases "dm_rotationList s = []")
        case True
        with \<open>dm_isRotating s\<close> Some differentDM show ?thesis
          by (simp add: secondary_code_def logs_generated_refl)
      next
        case False
        define len where "len = length (dm_rotationList s)"
        define nb where "nb = i_barcode (dm_rotationList s ! (dm_rotationIndex s mod len))"
        define tid where
          "tid = i_template (dm_rotationList s ! ((dm_rotationIndex s + len - 1) mod len))"
        have "logs_generated s (snd (and_then (generateDM cfg nb tid s)
          (\<lambda>result2 s'. (Inr (result,
              Some \<lparr>sec_type = DM, sec_code = Some (r_code result2), sec_barcode = nb\<rparr>),
              s'))))"
          by (rule and_then_logs_pure [OF generateDM_logs]) simp
        with False \<open>dm_isRotating s\<close> Some differentDM show ?thesis
          by (simp add: secondary_code_def Let_def len_def nb_def tid_def)
      qed
    next
      case False
      define nb where "nb = fst (getNextDemoGtin cfg s)"
      define s1 where "s1 = snd (getNextDemoGtin cfg s)"
      have d: "logs_generated s s1"
        unfolding s1_def by (rule logs_generated_same) (simp_all add: getNextDemoGtin_frame)
      have "logs_generated s1 (snd (and_then (generateDM cfg nb (dm_selectedTemplate s1) s1)
          (\<lambda>result2 s'. (Inr (result,
              Some \<lparr>sec_type = DM, sec_code = Some (r_code result2), sec_barcode = nb\<rparr>),
              s'))))"
        by (rule and_then_logs_pure [OF generateDM_logs]) simp
      with d have "logs_generated s (snd (and_then (generateDM cfg nb (dm_selectedTemplate s1) s1)
          (\<lambda>result2 s'. (Inr (result,
              Some \<lparr>sec_type = DM, sec_code = Some (r_code result2), sec_barcode = nb\<rparr>),
              s'))))"
        by (rule logs_generated_trans)
      with False Some differentDM show ?thesis
        by (simp add: secondary_code_def Let_def split_beta nb_def s1_def)
    qed
  qed
qed

lemma cache_show_frame:
  "seed (show_codes r sec (cache_code cfg mode r b i sec s)) = seed s"
  "history (show_codes r sec (cache_code cfg mode r b i sec s)) = history s"
  by (simp_all add: show_codes_def cache_code_def updateCodeText_def)

lemma generateAndDisplay_logs: "logs_generated s (snd (generateAndDisplay cfg s))"
proof -
  define mode where "mode = getActiveDoubleScanMode s"
  have "logs_generated s (snd (and_then (primary_code cfg s)
        (\<lambda>(result, barcode, currentRotationIdx) s.
           and_then (secondary_code cfg mode result barcode s)
             (\<lambda>(result, secondaryResult) s.
                (Inr (),
                 show_codes result secondaryResult
                   (cache_code cfg mode result barcode currentRotationIdx
                      secondaryResult s))))))"
  proof (rule and_then_logs [OF primary_code_logs])
    fix a :: "dm_result \<times> string \<times> nat"
    obtain result barcode idx where a: "a = (result, barcode, idx)" by (cases a)
    have "logs_generated (snd (primary_code cfg s))
      (snd (and_then (secondary_code cfg mode result barcode (snd (primary_code cfg s)))
             (\<lambda>(result, secondaryResult) s.
                (Inr (),
                 show_codes result secondaryResult
                   (cache_code cfg mode result barcode idx secondaryResult s)))))"
      by (rule and_then_logs_pure [OF secondary_code_logs])
         (simp add: cache_show_frame split_beta)
    then show "logs_generated (snd (primary_code cfg s))
      (snd ((case a of (result, barcode, currentRotationIdx) \<Rightarrow> \<lambda>s.
           and_then (secondary_code cfg mode result barcode s)
             (\<lambda>(result, secondaryResult) s.
                (Inr (),
                 show_codes result secondaryResult
                   (cache_code cfg mode result barcode currentRotationIdx
                      secondaryResult s)))) (snd (primary_code cfg s))))"
      by (simp add: a)
  qed
  then show ?thesis by (simp add: generateAndDisplay_def mode_def Let_def)
qed

lemma displayFromCache_logs: "logs_generated s (snd (displayFromCache cfg i s))"
  by (rule logs_generated_same) (simp_all add: displayFromCache_frame)

lemma dm_manualNext_logs: "logs_generated s (snd (dm_manualNext cfg s))"
  by (simp add: dm_manualNext_def Let_def displayFromCache_logs generateAndDisplay_logs)

lemma dm_manualPrev_logs: "logs_generated s (snd (dm_manualPrev cfg s))"
  by (simp add: dm_manualPrev_def Let_def displayFromCache_logs logs_generated_refl)

lemma dm_tick_logs: "logs_generated s (snd (dm_tick cfg s))"
proof -
  define s1 where "s1 = s\<lparr>dm_remaining := js_minus (dm_remaining s) (to_double (1 / 10))\<rparr>"
  have a: "logs_generated s s1"
    unfolding s1_def by (rule logs_generated_same) simp_all
  have "logs_generated s1 (snd (and_then (generateAndDisplay cfg s1)
      (\<lambda>_ s. (Inr (), s\<lparr>dm_remaining := dm_timerValue s\<rparr>))))"
    by (rule and_then_logs_pure [OF generateAndDisplay_logs]) simp
  with a have "logs_generated s (snd (and_then (generateAndDisplay cfg s1)
      (\<lambda>_ s. (Inr (), s\<lparr>dm_remaining := dm_timerValue s\<rparr>))))"
    by (rule logs_generated_trans)
  with a show ?thesis by (simp add: dm_tick_def Let_def s1_def)
qed

lemma displayCodeManual_frame:
  "history (displayCodeManual s) = history s" "seed (displayCodeManual s) = seed s"
  by (simp_all add: displayCodeManual_def Let_def)

lemma displayCode_history:
  "gs1_rotationItems s \<noteq> [] \<Longrightarrow>
   history (displayCode s) = history s @
     [\<lparr>h_type = ''GS1'',
       h_code = g_code (gs1_rotationItems s
                  ! (gs1_rotationIndex s mod length (gs1_rotationItems s)))\<rparr>]"
  "gs1_rotationItems s = [] \<Longrightarrow> displayCode s = s"
  "seed (displayCode s) = seed s"
  by (simp_all add: displayCode_def Let_def addToHistory_def)

lemma handle_counts:
  "seed s \<le> seed (handle cfg e s)
   \<and> length (history (handle cfg e s)) + seed s
       = length (history s) + seed (handle cfg e s) + gs1_shows e s"
proof (cases e)
  case Generate
  then show ?thesis
    using generateAndDisplay_logs [of s cfg] by (simp add: logs_generated_def gs1_shows_def)
next
  case (Replay i)
  then show ?thesis
    using displayFromCache_logs [of s cfg i] by (simp add: logs_generated_def gs1_shows_def)
next
  case Next
  then show ?thesis
    using dm_manualNext_logs [of s cfg] by (simp add: logs_generated_def gs1_shows_def)
next
  case Prev
  then show ?thesis
    using dm_manualPrev_logs [of s cfg] by (simp add: logs_generated_def gs1_shows_def)
next
  case Tick
  then show ?thesis
    using dm_tick_logs [of s cfg] by (simp add: logs_generated_def gs1_shows_def)
next
  case Gs1Display
  then show ?thesis
    by (cases "gs1_rotationItems s = []") (simp_all add: displayCode_history gs1_shows_def)
next
  case Gs1Manual
  then show ?thesis by (simp add: displayCodeManual_frame gs1_shows_def)
next
  case Gs1Next
  then show ?thesis by (simp add: gs1_manualNext_def displayCodeManual_frame gs1_shows_def)
next
  case Gs1Prev
  then show ?thesis
    by (simp add: gs1_manualPrev_def Let_def displayCodeManual_frame gs1_shows_def)
next
  case Gs1Tick
  let ?s = "s\<lparr>gs1_remaining := js_minus (gs1_remaining s) (to_double (1 / 10))\<rparr>"
  show ?thesis
  proof (cases "gs1_rotationItems s = []")
    case True
    then have "displayCode ?s = ?s" by (intro displayCode_history(2)) simp
    with True Gs1Tick show ?thesis by (simp add: gs1_tick_def Let_def gs1_shows_def)
  next
    case False
    then have "length (history (displayCode ?s)) = length (history s) + 1"
      by (simp add: displayCode_history(1))
    with False Gs1Tick show ?thesis
      by (simp add: gs1_tick_def Let_def gs1_shows_def displayCode_history(3))
  qed
qed

lemma run_counts:
  "seed s \<le> seed (run cfg es s)
   \<and> length (history (run cfg es s)) + seed s
       = length (history s) + seed (run cfg es s) + gs1_shown cfg es s"
proof (induction es arbitrary: s)
  case Nil
  then show ?case by simp
next
  case (Cons e es)
  from handle_counts [of s cfg e] Cons.IH [of "handle cfg e s"]
  show ?case by simp
qed

text \<open>
  Claim C7, amended. \<^verbatim>\<open>generateDM\<close> appends one entry to the activity log for the code
  it generates and none when it throws; \<^verbatim>\<open>displayFromCache\<close> and the manual display of
  the GS1 carousel append nothing. The automatic display of the GS1 carousel
  (\<^verbatim>\<open>displayCode\<close>) appends one entry for the item it shows, whose code was generated
  before, and generates nothing. So over every run of refreshes, replays, arrow keys and
  timer ticks of both tabs, the number of entries added is the number of DataMatrix codes
  generated plus the number of automatic GS1 displays.
\<close>

theorem history_counts:
  "seed s \<le> seed (run cfg es s)
   \<and> length (history (run cfg es s))
       = length (history s) + (seed (run cfg es s) - seed s) + gs1_shown cfg es s
   \<and> (generateDM cfg b t s = (Inr r, s') \<longrightarrow>
        history s' = history s @ [\<lparr>h_type = ''DM'', h_code = r_code r\<rparr>]
        \<and> seed s' = seed s + 1)
   \<and> (generateDM cfg b t s = (Inl e, s') \<longrightarrow> history s' = history s \<and> seed s' = seed s)
   \<and> history (snd (displayFromCache cfg i s)) = history s
   \<and> seed (snd (displayFromCache cfg i s)) = seed s
   \<and> history (displayCodeManual s) = history s
   \<and> seed (displayCode s) = seed s
   \<and> (gs1_rotationItems s \<noteq> [] \<longrightarrow>
        history (displayCode s) = history s @
          [\<lparr>h_type = ''GS1'',
            h_code = g_code (gs1_rotationItems s
                       ! (gs1_rotationIndex s mod length (gs1_rotationItems s)))\<rparr>])"
proof (intro conjI impI)
  show "seed s \<le> seed (run cfg es s)"
    using run_counts [of s cfg es] by simp
  show "length (history (run cfg es s))
       = length (history s) + (seed (run cfg es s) - seed s) + gs1_shown cfg es s"
    using run_counts [of s cfg es] by linarith
  show "history s' = history s @ [\<lparr>h_type = ''DM'', h_code = r_code r\<rparr>]"
    if "generateDM cfg b t s = (Inr r, s')"
    using that by (rule generateDM_Inr)
  show "seed s' = seed s + 1" if "generateDM cfg b t s = (Inr r, s')"
    using that by (rule generateDM_Inr)
  show "history s' = history s" if "generateDM cfg b t s = (Inl e, s')"
    using that by (rule generateDM_Inl)
  show "seed s' = seed s" if "generateDM cfg b t s = (Inl e, s')"
    using that by (rule generateDM_Inl)
  show "history (snd (displayFromCache cfg i s)) = history s"
    by (rule displayFromCache_frame)
  show "seed (snd (displayFromCache cfg i s)) = seed s"
    by (rule displayFromCache_frame)
  show "history (displayCodeManual s) = history s"
    by (rule displayCodeManual_frame)
  show "seed (displayCode s) = seed s"
    by (rule displayCode_history)
  show "history (displayCode s) = history s @
          [\<lparr>h_type = ''GS1'',
            h_code = g_code (gs1_rotationItems s
                       ! (gs1_rotationIndex s mod length (gs1_rotationItems s)))\<rparr>]"
    if "gs1_rotationItems s \<noteq> []"
    using that by (rule displayCode_history)
qed

lemma generateDM_example:
  "generateDM example_config ''4810099003310'' ''type1'' idle_state =
     (Inr \<lparr>r_code = ''010481009900331021000000'', r_templateName = ''Type 1'',
           r_barcode = ''4810099003310'', r_displayAsEan = False, r_ean13Code = None\<rparr>,
      idle_state\<lparr>seed := 1,
        history := [\<lparr>h_type = ''DM'', h_code = ''010481009900331021000000''\<rparr>]\<rparr>)"
proof -
  have s0: "show_nat 0 = ''0''" by (simp add: show_nat.simps digit_char_def)
  have "generateDM example_config ''4810099003310'' ''type1'' idle_state =
     (Inr \<lparr>r_code = t_generate example_template (seed idle_state) ''4810099003310'',
           r_templateName = t_name example_template,
           r_barcode = ''4810099003310'', r_displayAsEan = False, r_ean13Code = None\<rparr>,
      idle_state\<lparr>seed := seed idle_state + 1,
        history := history idle_state @
          [\<lparr>h_type = ''DM'',
            h_code = t_generate example_template (seed idle_state) ''4810099003310''\<rparr>]\<rparr>)"
    by (rule generateDM_Some) (simp_all add: example_config_def)
  moreover have "t_generate example_template (seed idle_state) ''4810099003310''
      = ''010481009900331021000000''"
    by (simp add: example_template_def idle_state_def padZeros_def s0 replicate_numeral)
  moreover have "seed idle_state = 0" "history idle_state = []"
    by (simp_all add: idle_state_def)
  ultimately show ?thesis by (simp add: example_template_def)
qed

theorem history_counts_witness:
  "history (snd (generateDM example_config ''4810099003310'' ''type1'' idle_state))
     = [\<lparr>h_type = ''DM'', h_code = ''010481009900331021000000''\<rparr>]
   \<and> seed (snd (generateDM example_config ''4810099003310'' ''type1'' idle_state)) = 1
   \<and> history (displayCode
        (idle_state\<lparr>gs1_rotationItems :=
           [\<lparr>g_code = ''99MPUC'', g_goodsId = ''123'', g_active = True\<rparr>]\<rparr>))
     = [\<lparr>h_type = ''GS1'', h_code = ''99MPUC''\<rparr>]"
proof -
  let ?r = "\<lparr>r_code = ''010481009900331021000000'', r_templateName = ''Type 1'',
           r_barcode = ''4810099003310'', r_displayAsEan = False, r_ean13Code = None\<rparr>"
  let ?s' = "idle_state\<lparr>seed := 1,
        history := [\<lparr>h_type = ''DM'', h_code = ''010481009900331021000000''\<rparr>]\<rparr>"
  let ?st = "idle_state\<lparr>gs1_rotationItems :=
           [\<lparr>g_code = ''99MPUC'', g_goodsId = ''123'', g_active = True\<rparr>]\<rparr>"
  have h0: "history idle_state = []" "seed idle_state = 0"
    by (simp_all add: idle_state_def)
  have "history ?s' = history idle_state @ [\<lparr>h_type = ''DM'', h_code = r_code ?r\<rparr>]
      \<and> seed ?s' = seed idle_state + 1"
    using history_counts [of idle_state example_config "[]" "''4810099003310''" "''type1''"
        ?r ?s'] generateDM_example
    by blast
  then have a: "history (snd (generateDM example_config ''4810099003310'' ''type1'' idle_state))
      = [\<lparr>h_type = ''DM'', h_code = ''010481009900331021000000''\<rparr>]"
    "seed (snd (generateDM example_config ''4810099003310'' ''type1'' idle_state)) = 1"
    by (simp_all add: generateDM_example)
  have "gs1_rotationItems ?st \<noteq> []" by simp
  then have "history (displayCode ?st) = history ?st @
          [\<lparr>h_type = ''GS1'',
            h_code = g_code (gs1_rotationItems ?st
                       ! (gs1_rotationIndex ?st mod length (gs1_rotationItems ?st)))\<rparr>]"
    using history_counts [of ?st example_config "[]"] by blast
  then have b: "history (displayCode ?st) = [\<lparr>h_type = ''GS1'', h_code = ''99MPUC''\<rparr>]"
    by (simp add: h0)
  from a b show ?thesis by simp
qed

text \<open>
  Claim C7 as stated fails in the GS1 carousel: showing the only item of a rotation twice
  logs its code twice, and no code is generated.
\<close>

theorem history_gs1_redisplay_counterexample:
  "history (displayCode (displayCode
      (idle_state\<lparr>gs1_rotationItems :=
         [\<lparr>g_code = ''99MPUC'', g_goodsId = ''123'', g_active = True\<rparr>]\<rparr>)))
     = [\<lparr>h_type = ''GS1'', h_code = ''99MPUC''\<rparr>, \<lparr>h_type = ''GS1'', h_code = ''99MPUC''\<rparr>]
   \<and> seed (displayCode (displayCode
      (idle_state\<lparr>gs1_rotationItems :=
         [\<lparr>g_code = ''99MPUC'', g_goodsId = ''123'', g_active = True\<rparr>]\<rparr>))) = 0"
  by (simp add: displayCode_def Let_def addToHistory_def idle_state_def)

subsection \<open>Rotation and replay\<close>

lemma generateDM_ok:
  assumes "TEMPLATES cfg (if tid \<noteq> [] then tid else dm_selectedTemplate s) = Some t"
  shows "\<exists>res d h. generateDM cfg b tid s
           = (Inr res, s\<lparr>demoIndex := d, seed := seed s + 1, history := h\<rparr>)
         \<and> \<not> r_displayAsEan res
         \<and> r_code res
           = t_generate t (seed s) (if b \<noteq> [] then b else fst (getNextDemoGtin cfg s))
         \<and> r_templateName res = t_name t"
proof (cases "b = [] \<and> DEMO_GTINS cfg \<noteq> []")
  case True
  define g where "g = DEMO_GTINS cfg ! (demoIndex s mod length (DEMO_GTINS cfg))"
  define res where "res = \<lparr>r_code = t_generate t (seed s) g, r_templateName = t_name t,
            r_barcode = g, r_displayAsEan = False, r_ean13Code = None\<rparr>"
  have "generateDM cfg b tid s =
      (Inr res,
       s\<lparr>demoIndex := demoIndex s + 1, seed := seed s + 1,
         history := history s @ [\<lparr>h_type = ''DM'', h_code = t_generate t (seed s) g\<rparr>]\<rparr>)"
    using assms True
    by (simp add: generateDM_def getNextDemoGtin_def addToHistory_def Let_def g_def res_def)
  moreover have "\<not> r_displayAsEan res" "r_templateName res = t_name t"
    by (simp_all add: res_def)
  moreover have "r_code res
      = t_generate t (seed s) (if b \<noteq> [] then b else fst (getNextDemoGtin cfg s))"
    using True by (simp add: res_def g_def getNextDemoGtin_def)
  ultimately show ?thesis by blast
next
  case False
  define res where "res = \<lparr>r_code = t_generate t (seed s) b, r_templateName = t_name t,
            r_barcode = b, r_displayAsEan = False, r_ean13Code = None\<rparr>"
  have "generateDM cfg b tid s =
      (Inr res,
       s\<lparr>demoIndex := demoIndex s, seed := seed s + 1,
         history := history s @ [\<lparr>h_type = ''DM'', h_code = t_generate t (seed s) b\<rparr>]\<rparr>)"
    using assms False
    by (auto simp: generateDM_def getNextDemoGtin_def addToHistory_def Let_def res_def)
  moreover have "\<not> r_displayAsEan res" "r_templateName res = t_name t"
    by (simp_all add: res_def)
  moreover have "r_code res
      = t_generate t (seed s) (if b \<noteq> [] then b else fst (getNextDemoGtin cfg s))"
    using False by (auto simp: res_def getNextDemoGtin_def)
  ultimately show ?thesis by blast
qed

lemma primary_code_rotating:
  assumes "dm_isRotating s" and "dm_rotationList s = L" and "dm_rotationIndex s = k"
    and "k < length L"
    and "TEMPLATES cfg (if i_template (L ! k) \<noteq> [] then i_template (L ! k)
                        else dm_selectedTemplate s) = Some t"
  shows "\<exists>res d h. primary_code cfg s
           = (Inr (res, i_barcode (L ! k), k),
              s\<lparr>demoIndex := d, seed := seed s + 1, history := h,
                dm_rotationIndex := (k + 1) mod length L\<rparr>)
         \<and> \<not> r_displayAsEan res
         \<and> r_code res
           = t_generate t (seed s)
               (if i_barcode (L ! k) \<noteq> [] then i_barcode (L ! k)
                else fst (getNextDemoGtin cfg s))
         \<and> r_templateName res = t_name t"
proof -
  obtain res d h where
    g: "generateDM cfg (i_barcode (L ! k)) (i_template (L ! k)) s
          = (Inr res, s\<lparr>demoIndex := d, seed := seed s + 1, history := h\<rparr>)"
    and e: "\<not> r_displayAsEan res"
      "r_code res
         = t_generate t (seed s)
             (if i_barcode (L ! k) \<noteq> [] then i_barcode (L ! k)
              else fst (getNextDemoGtin cfg s))"
      "r_templateName res = t_name t"
    using generateDM_ok [OF assms(5)] by blast
  have ne: "L \<noteq> []" using assms(4) by auto
  have "primary_code cfg s
           = (Inr (res, i_barcode (L ! k), k),
              s\<lparr>demoIndex := d, seed := seed s + 1, history := h,
                dm_rotationIndex := (k + 1) mod length L\<rparr>)"
    using assms(1-4) ne g by (simp add: primary_code_def Let_def and_then_def)
  with e show ?thesis by blast
qed

lemma rotation_prev_index:
  assumes "k < n"
  shows "((k + 1) mod n + n - 1) mod n = (k :: nat)"
proof (cases "k + 1 < n")
  case True
  then show ?thesis by simp
next
  case False
  with assms have "k + 1 = n" by simp
  then show ?thesis using assms by auto
qed

lemma secondary_code_rotating:
  assumes "dm_isRotating s" and "dm_rotationList s = L" and "k < length L"
    and "dm_rotationIndex s = (k + 1) mod length L"
    and "TEMPLATES cfg (if i_template (L ! k) \<noteq> [] then i_template (L ! k)
                        else dm_selectedTemplate s) \<noteq> None"
  shows "\<exists>res' sec d n h. secondary_code cfg mode res b s
           = (Inr (res', sec), s\<lparr>demoIndex := d, seed := n, history := h\<rparr>)
         \<and> r_code res' = r_code res \<and> r_templateName res' = r_templateName res"
proof -
  have same: "s\<lparr>demoIndex := demoIndex s, seed := seed s, history := history s\<rparr> = s"
    by simp
  show ?thesis
  proof (cases mode)
    case None
    then have "secondary_code cfg mode res b s
        = (Inr (res, None), s\<lparr>demoIndex := demoIndex s, seed := seed s, history := history s\<rparr>)"
      by (simp add: secondary_code_def)
    then show ?thesis by blast
  next
    case (Some m)
    show ?thesis
    proof (cases m)
      case sameDM
      with Some have "secondary_code cfg mode res b s
        = (Inr (res, Some \<lparr>sec_type = DM, sec_code = Some (r_code res), sec_barcode = b\<rparr>),
           s\<lparr>demoIndex := demoIndex s, seed := seed s, history := history s\<rparr>)"
        by (simp add: secondary_code_def)
      then show ?thesis by blast
    next
      case dmEan
      obtain e where "extractEAN13FromDM (r_code res) = Inr e"
        using extractEAN13FromDM_total by blast
      with Some dmEan have "secondary_code cfg mode res b s
        = (Inr (res, Some \<lparr>sec_type = EAN13, sec_code = e, sec_barcode = []\<rparr>),
           s\<lparr>demoIndex := demoIndex s, seed := seed s, history := history s\<rparr>)"
        by (simp add: secondary_code_def)
      then show ?thesis by blast
    next
      case sameEan
      obtain e where "extractEAN13FromDM (r_code res) = Inr e"
        using extractEAN13FromDM_total by blast
      with Some sameEan have "secondary_code cfg mode res b s
        = (Inr (res\<lparr>r_displayAsEan := True, r_ean13Code := e\<rparr>,
                Some \<lparr>sec_type = EAN13, sec_code = e, sec_barcode = []\<rparr>),
           s\<lparr>demoIndex := demoIndex s, seed := seed s, history := history s\<rparr>)"
        by (simp add: secondary_code_def)
      then have "\<exists>res' sec. secondary_code cfg mode res b s
           = (Inr (res', sec), s\<lparr>demoIndex := demoIndex s, seed := seed s, history := history s\<rparr>)
         \<and> r_code res' = r_code res \<and> r_templateName res' = r_templateName res"
        by simp
      then show ?thesis by blast
    next
      case differentDM
      define len where "len = length L"
      define nb where "nb = i_barcode (L ! (dm_rotationIndex s mod len))"
      have ne: "L \<noteq> []" using assms(3) by auto
      have idx: "(dm_rotationIndex s + len - 1) mod len = k"
        unfolding assms(4) len_def using assms(3) by (rule rotation_prev_index)
      from assms(5) obtain t where
        "TEMPLATES cfg (if i_template (L ! k) \<noteq> [] then i_template (L ! k)
                        else dm_selectedTemplate s) = Some t"
        by blast
      then obtain res2 d h where
        g: "generateDM cfg nb (i_template (L ! k)) s
              = (Inr res2, s\<lparr>demoIndex := d, seed := seed s + 1, history := h\<rparr>)"
        using generateDM_ok by blast
      have "secondary_code cfg mode res b s
        = (Inr (res, Some \<lparr>sec_type = DM, sec_code = Some (r_code res2), sec_barcode = nb\<rparr>),
           s\<lparr>demoIndex := d, seed := seed s + 1, history := h\<rparr>)"
        using Some differentDM assms(1,2) ne g idx
        by (simp add: secondary_code_def Let_def and_then_def len_def nb_def)
      then show ?thesis by blast
    qed
  qed
qed

lemma generateAndDisplay_rotating:
  assumes "dm_isRotating s" and "dm_rotationList s = L" and "dm_rotationIndex s = k"
    and "k < length L"
    and "TEMPLATES cfg (if i_template (L ! k) \<noteq> [] then i_template (L ! k)
                        else dm_selectedTemplate s) = Some t"
  shows "\<exists>s' c. generateAndDisplay cfg s = (Inr (), s')
           \<and> c_code c
             = t_generate t (seed s)
                 (if i_barcode (L ! k) \<noteq> [] then i_barcode (L ! k)
                  else fst (getNextDemoGtin cfg s))
           \<and> c_templateName c = t_name t
           \<and> dm_rotationList s' = L \<and> dm_isRotating s'
           \<and> dm_selectedTemplate s' = dm_selectedTemplate s
           \<and> dm_rotationIndex s' = (k + 1) mod length L
           \<and> dm_generatedCodes s' = dm_generatedCodes s @ [c]
           \<and> c_rotationIdx c = k \<and> c_barcode c = i_barcode (L ! k)
           \<and> current_code s' = c_code c
           \<and> dm_codeHistoryIndex s' = int (length (dm_generatedCodes s))
           \<and> dm_timerInterval s' = dm_timerInterval s \<and> timers s' = timers s
           \<and> dm_timerValue s' = dm_timerValue s
           \<and> seed s < seed s'"
proof -
  define mode where "mode = getActiveDoubleScanMode s"
  have ne: "L \<noteq> []" using assms(4) by auto
  obtain res d h where
    p: "primary_code cfg s
          = (Inr (res, i_barcode (L ! k), k),
             s\<lparr>demoIndex := d, seed := seed s + 1, history := h,
               dm_rotationIndex := (k + 1) mod length L\<rparr>)"
    and pc: "r_code res
           = t_generate t (seed s)
               (if i_barcode (L ! k) \<noteq> [] then i_barcode (L ! k)
                else fst (getNextDemoGtin cfg s))"
      "r_templateName res = t_name t"
    using primary_code_rotating [OF assms] by blast
  define s1 where "s1 = s\<lparr>demoIndex := d, seed := seed s + 1, history := h,
               dm_rotationIndex := (k + 1) mod length L\<rparr>"
  have sel1: "dm_selectedTemplate s1 = dm_selectedTemplate s"
    by (simp add: s1_def)
  have s1: "dm_isRotating s1" "dm_rotationList s1 = L"
    "dm_rotationIndex s1 = (k + 1) mod length L"
    using assms(1,2) by (simp_all add: s1_def)
  have s1t: "TEMPLATES cfg (if i_template (L ! k) \<noteq> [] then i_template (L ! k)
                        else dm_selectedTemplate s1) \<noteq> None"
    unfolding sel1 using assms(5) by simp
  obtain res' sec d' n' h' where
    q: "secondary_code cfg mode res (i_barcode (L ! k)) s1
          = (Inr (res', sec), s1\<lparr>demoIndex := d', seed := n', history := h'\<rparr>)"
    and qc: "r_code res' = r_code res" "r_templateName res' = r_templateName res"
    using secondary_code_rotating [OF s1(1,2) assms(4) s1(3) s1t] by blast
  define s2 where "s2 = s1\<lparr>demoIndex := d', seed := n', history := h'\<rparr>"
  define s3 where "s3 = show_codes res' sec (cache_code cfg mode res' (i_barcode (L ! k)) k sec s2)"
  have r: "generateAndDisplay cfg s = (Inr (), s3)"
    using p q
    by (simp add: generateAndDisplay_def Let_def and_then_def mode_def s1_def s2_def s3_def)
  have rot2: "dm_isRotating s2 \<and> dm_rotationList s2 \<noteq> []"
    using assms(1,2) ne by (simp add: s2_def s1_def)
  define c where "c = \<lparr>c_code = r_code res', c_barcode = i_barcode (L ! k),
               c_templateName = r_templateName res', c_rotationIdx = k,
               c_doubleScanMode = mode, c_primaryDisplayAsEan = r_displayAsEan res',
               c_secondaryCode = sec\<rparr>"
  have f: "dm_rotationList s3 = L" "dm_isRotating s3"
    "dm_selectedTemplate s3 = dm_selectedTemplate s"
    "dm_rotationIndex s3 = (k + 1) mod length L"
    "dm_generatedCodes s3 = dm_generatedCodes s @ [c]"
    "current_code s3 = c_code c"
    "dm_codeHistoryIndex s3 = int (length (dm_generatedCodes s))"
    "dm_timerInterval s3 = dm_timerInterval s" "timers s3 = timers s"
    "dm_timerValue s3 = dm_timerValue s"
    using rot2 assms(1,2)
    by (simp_all add: s3_def show_codes_def cache_code_def updateCodeText_def s2_def s1_def
        c_def)
  have "logs_generated s1 (snd (secondary_code cfg mode res (i_barcode (L ! k)) s1))"
    by (rule secondary_code_logs)
  then have "seed s1 \<le> seed s2"
    by (simp add: q s2_def logs_generated_def)
  moreover have "seed s1 = seed s + 1" by (simp add: s1_def)
  moreover have "seed s3 = seed s2"
    by (simp add: s3_def cache_show_frame)
  ultimately have sd: "seed s < seed s3" by simp
  have "c_rotationIdx c = k" "c_barcode c = i_barcode (L ! k)"
    by (simp_all add: c_def)
  moreover have "c_code c
      = t_generate t (seed s)
          (if i_barcode (L ! k) \<noteq> [] then i_barcode (L ! k)
           else fst (getNextDemoGtin cfg s))"
    "c_templateName c = t_name t"
    using pc qc by (simp_all add: c_def)
  ultimately show ?thesis using r f sd by blast
qed

lemma dm_startTimer_at_end:
  assumes "dm_codeHistoryIndex s = int (length (dm_generatedCodes s)) - 1"
  shows "dm_startTimer cfg s =
     (Inr (), s\<lparr>dm_timerInterval := None, dm_remaining := dm_timerValue s,
                dm_timerInterval := Some (timers s), timers := timers s + 1\<rparr>)"
  using assms by (simp add: dm_startTimer_def dm_stopTimer_def Let_def and_then_def)

lemma generating_timer:
  "generating L sel k s \<Longrightarrow>
   generating L sel k (s\<lparr>dm_timerInterval := a, dm_remaining := b,
                        dm_timerInterval := c, timers := d\<rparr>)"
  by (simp add: generating_def)

lemma dm_startRotation_payload:
  assumes "filter i_active items = L" and "L \<noteq> []"
    and "TEMPLATES cfg (if i_template (L ! 0) \<noteq> [] then i_template (L ! 0)
                        else dm_selectedTemplate s) = Some t"
  shows "fst (dm_startRotation cfg (Some items) s) = Inr ()
       \<and> generating L (dm_selectedTemplate s) 0 (snd (dm_startRotation cfg (Some items) s))
       \<and> current_code (snd (dm_startRotation cfg (Some items) s))
         = t_generate t (seed s)
             (if i_barcode (L ! 0) \<noteq> [] then i_barcode (L ! 0)
              else fst (getNextDemoGtin cfg s))
       \<and> c_templateName (dm_generatedCodes (snd (dm_startRotation cfg (Some items) s)) ! 0)
         = t_name t"
proof -
  define s1 where "s1 = s\<lparr>dm_rotationList := L, dm_rotationIndex := 0,
                        dm_isRotating := True, dm_generatedCodes := [],
                        dm_codeHistoryIndex := - 1\<rparr>"
  have sel: "dm_selectedTemplate s1 = dm_selectedTemplate s" by (simp add: s1_def)
  have sd: "seed s1 = seed s" "fst (getNextDemoGtin cfg s1) = fst (getNextDemoGtin cfg s)"
    by (simp_all add: s1_def getNextDemoGtin_def)
  have a: "dm_isRotating s1" "dm_rotationList s1 = L" "dm_rotationIndex s1 = 0"
    "0 < length L"
    using assms(2) by (simp_all add: s1_def)
  have t: "TEMPLATES cfg (if i_template (L ! 0) \<noteq> [] then i_template (L ! 0)
                        else dm_selectedTemplate s1) = Some t"
    unfolding sel by (rule assms(3))
  obtain s2 c where g: "generateAndDisplay cfg s1 = (Inr (), s2)"
    and f: "dm_rotationList s2 = L" "dm_isRotating s2"
      "dm_selectedTemplate s2 = dm_selectedTemplate s1"
      "dm_rotationIndex s2 = (0 + 1) mod length L"
      "dm_generatedCodes s2 = dm_generatedCodes s1 @ [c]"
      "c_rotationIdx c = 0" "c_barcode c = i_barcode (L ! 0)"
      "current_code s2 = c_code c"
      "dm_codeHistoryIndex s2 = int (length (dm_generatedCodes s1))"
    and pc: "c_code c
             = t_generate t (seed s1)
                 (if i_barcode (L ! 0) \<noteq> [] then i_barcode (L ! 0)
                  else fst (getNextDemoGtin cfg s1))"
      "c_templateName c = t_name t"
    using generateAndDisplay_rotating [OF a t] by blast
  have codes: "dm_generatedCodes s2 = [c]" using f(5) by (simp add: s1_def)
  have chi: "dm_codeHistoryIndex s2 = 0" using f(9) by (simp add: s1_def)
  have gen: "generating L (dm_selectedTemplate s) 0 s2"
    using f codes chi sel by (simp add: generating_def)
  have e: "dm_codeHistoryIndex s2 = int (length (dm_generatedCodes s2)) - 1"
    using codes chi by simp
  have "dm_startRotation cfg (Some items) s = dm_startTimer cfg s2"
    using assms(1,2) g by (simp add: dm_startRotation_def Let_def and_then_def s1_def)
  then have "dm_startRotation cfg (Some items) s =
     (Inr (), s2\<lparr>dm_timerInterval := None, dm_remaining := dm_timerValue s2,
                 dm_timerInterval := Some (timers s2), timers := timers s2 + 1\<rparr>)"
    using dm_startTimer_at_end [OF e] by simp
  with gen f(8) pc codes show ?thesis by (simp add: generating_def sd)
qed

lemma dm_startRotation_generating:
  assumes "filter i_active items = L" and "L \<noteq> []"
    and "TEMPLATES cfg (if i_template (L ! 0) \<noteq> [] then i_template (L ! 0)
                        else dm_selectedTemplate s) \<noteq> None"
  shows "fst (dm_startRotation cfg (Some items) s) = Inr ()
       \<and> generating L (dm_selectedTemplate s) 0 (snd (dm_startRotation cfg (Some items) s))"
proof -
  from assms(3) obtain t where
    "TEMPLATES cfg (if i_template (L ! 0) \<noteq> [] then i_template (L ! 0)
                    else dm_selectedTemplate s) = Some t"
    by blast
  from dm_startRotation_payload [OF assms(1,2) this] show ?thesis by simp
qed

lemma dm_manualNext_payload:
  assumes "generating L sel k st" and "k + 1 < length L"
    and "TEMPLATES cfg (if i_template (L ! (k + 1)) \<noteq> [] then i_template (L ! (k + 1))
                        else sel) = Some t"
  shows "fst (dm_manualNext cfg st) = Inr ()
       \<and> generating L sel (k + 1) (snd (dm_manualNext cfg st))
       \<and> take (k + 1) (dm_generatedCodes (snd (dm_manualNext cfg st))) = dm_generatedCodes st
       \<and> seed st < seed (snd (dm_manualNext cfg st))
       \<and> current_code (snd (dm_manualNext cfg st))
         = t_generate t (seed st)
             (if i_barcode (L ! (k + 1)) \<noteq> [] then i_barcode (L ! (k + 1))
              else fst (getNextDemoGtin cfg st))
       \<and> c_templateName (dm_generatedCodes (snd (dm_manualNext cfg st)) ! (k + 1)) = t_name t"
proof -
  have g: "dm_rotationList st = L" "dm_isRotating st" "dm_selectedTemplate st = sel"
    "length (dm_generatedCodes st) = k + 1" "dm_codeHistoryIndex st = int k"
    "dm_rotationIndex st = (k + 1) mod length L"
    and inv: "list_all (\<lambda>j. c_rotationIdx (dm_generatedCodes st ! j) = j
                \<and> c_barcode (dm_generatedCodes st ! j) = i_barcode (L ! j)) [0..<k + 1]"
    using assms(1) by (simp_all add: generating_def)
  have idx: "dm_rotationIndex st = k + 1" using g(6) assms(2) by simp
  have "length (remdups (map c_rotationIdx (dm_generatedCodes st)))
          \<le> length (map c_rotationIdx (dm_generatedCodes st))"
    by (rule length_remdups_leq)
  then have u: "length (remdups (map c_rotationIdx (dm_generatedCodes st))) < length L"
    using g(4) assms(2) by simp
  have m: "dm_manualNext cfg st = generateAndDisplay cfg st"
    using g(1,4,5) assms(2) u by (simp add: dm_manualNext_def Let_def)
  have t: "TEMPLATES cfg (if i_template (L ! (k + 1)) \<noteq> [] then i_template (L ! (k + 1))
                        else dm_selectedTemplate st) = Some t"
    unfolding g(3) by (rule assms(3))
  obtain s' c where r: "generateAndDisplay cfg st = (Inr (), s')"
    and f: "dm_rotationList s' = L" "dm_isRotating s'"
      "dm_selectedTemplate s' = dm_selectedTemplate st"
      "dm_rotationIndex s' = (k + 1 + 1) mod length L"
      "dm_generatedCodes s' = dm_generatedCodes st @ [c]"
      "c_rotationIdx c = k + 1" "c_barcode c = i_barcode (L ! (k + 1))"
      "current_code s' = c_code c"
      "dm_codeHistoryIndex s' = int (length (dm_generatedCodes st))"
      "seed st < seed s'"
    and pc: "c_code c
             = t_generate t (seed st)
                 (if i_barcode (L ! (k + 1)) \<noteq> [] then i_barcode (L ! (k + 1))
                  else fst (getNextDemoGtin cfg st))"
      "c_templateName c = t_name t"
    using generateAndDisplay_rotating [OF g(2) g(1) idx assms(2) t] by blast
  have old: "list_all (\<lambda>j. c_rotationIdx (dm_generatedCodes s' ! j) = j
                \<and> c_barcode (dm_generatedCodes s' ! j) = i_barcode (L ! j)) [0..<k + 1]"
    using inv g(4) by (simp add: f(5) list_all_iff nth_append)
  have new: "c_rotationIdx (dm_generatedCodes s' ! (k + 1)) = k + 1
      \<and> c_barcode (dm_generatedCodes s' ! (k + 1)) = i_barcode (L ! (k + 1))"
    using f(6,7) g(4) by (simp add: f(5) nth_append)
  have all: "list_all (\<lambda>j. c_rotationIdx (dm_generatedCodes s' ! j) = j
                \<and> c_barcode (dm_generatedCodes s' ! j) = i_barcode (L ! j)) [0..<k + 1 + 1]"
    using old new by simp
  have cur: "current_code s' = c_code (dm_generatedCodes s' ! (k + 1))"
    using f(8) g(4) by (simp add: f(5) nth_append)
  have gen: "generating L sel (k + 1) s'"
    using f(1,2,3,4,9) g(3,4) all cur by (simp add: generating_def f(5))
  have tk: "take (k + 1) (dm_generatedCodes s') = dm_generatedCodes st"
    using g(4) by (simp add: f(5))
  have tn: "c_templateName (dm_generatedCodes s' ! (k + 1)) = t_name t"
    using pc(2) g(4) by (simp add: f(5) nth_append)
  show ?thesis
    using m r gen tk f(10) f(8) pc(1) tn by simp
qed

lemma dm_manualNext_generating:
  assumes "generating L sel k st" and "k + 1 < length L"
    and "TEMPLATES cfg (if i_template (L ! (k + 1)) \<noteq> [] then i_template (L ! (k + 1))
                        else sel) \<noteq> None"
  shows "fst (dm_manualNext cfg st) = Inr ()
       \<and> generating L sel (k + 1) (snd (dm_manualNext cfg st))
       \<and> take (k + 1) (dm_generatedCodes (snd (dm_manualNext cfg st))) = dm_generatedCodes st
       \<and> seed st < seed (snd (dm_manualNext cfg st))"
proof -
  from assms(3) obtain t where
    "TEMPLATES cfg (if i_template (L ! (k + 1)) \<noteq> [] then i_template (L ! (k + 1))
                    else sel) = Some t"
    by blast
  from dm_manualNext_payload [OF assms(1,2) this] show ?thesis by simp
qed

lemma displayFromCache_shown:
  assumes "0 \<le> i" and "i < int (length (dm_generatedCodes s))"
  shows "dm_codeHistoryIndex (snd (displayFromCache cfg i s)) = i"
    and "current_code (snd (displayFromCache cfg i s)) = c_code (dm_generatedCodes s ! nat i)"
  using assms by (cases cfg i s rule: displayFromCache_cases; simp)+

lemma js_rem_nat: "js_rem (int a) (int b) = int (a mod b)"
  by (simp add: js_rem_def zmod_int)

lemma dm_manualNext_replaying:
  assumes "replaying L C h n j st"
  shows "fst (dm_manualNext cfg st) = Inr ()
       \<and> replaying L C h n ((j + 1) mod length L) (snd (dm_manualNext cfg st))"
proof -
  have r: "dm_rotationList st = L" "dm_generatedCodes st = C" "length C = length L"
    "history st = h" "seed st = n" "j < length L" "dm_codeHistoryIndex st = int j"
    using assms by (simp_all add: replaying_def)
  define i where "i = (j + 1) mod length L"
  have "0 < length L" using r(6) by (cases L) simp_all
  then have il: "i < length L" unfolding i_def by (rule mod_less_divisor)
  have "dm_codeHistoryIndex st + 1 = int (j + 1)" using r(7) by simp
  then have "js_rem (dm_codeHistoryIndex st + 1) (int (length L)) = int i"
    by (simp only: js_rem_nat i_def)
  moreover have "L \<noteq> []" using \<open>0 < length L\<close> by simp
  ultimately have m: "dm_manualNext cfg st = displayFromCache cfg (int i) st"
    using r(1,2,3) by (simp add: dm_manualNext_def Let_def)
  have b: "0 \<le> int i" "int i < int (length (dm_generatedCodes st))"
    using il r(2,3) by simp_all
  have "dm_codeHistoryIndex (snd (displayFromCache cfg (int i) st)) = int i"
    "current_code (snd (displayFromCache cfg (int i) st)) = c_code (C ! i)"
    using displayFromCache_shown [OF b, of cfg] r(2) by simp_all
  then have "replaying L C h n i (snd (displayFromCache cfg (int i) st))"
    using r il by (simp add: replaying_def displayFromCache_frame)
  then show ?thesis
    by (simp add: m displayFromCache_ok i_def)
qed

lemma generating_replaying:
  assumes "generating L sel k st" and "k + 1 = length L"
  shows "replaying L (dm_generatedCodes st) (history st) (seed st) k st"
  using assms by (simp add: generating_def replaying_def)

lemma nexts_0: "nexts cfg 0 s = s"
  by (simp add: nexts_def)

lemma nexts_Suc: "nexts cfg (Suc k) s = snd (dm_manualNext cfg (nexts cfg k s))"
  by (simp add: nexts_def)

lemma templates_nth:
  assumes "list_all (\<lambda>it. TEMPLATES cfg (if i_template it \<noteq> [] then i_template it else sel)
                            \<noteq> None) L"
    and "k < length L"
  shows "TEMPLATES cfg (if i_template (L ! k) \<noteq> [] then i_template (L ! k) else sel) \<noteq> None"
  using assms by (simp add: list_all_length)

lemma nexts_generating:
  assumes "generating L sel 0 s0"
    and "list_all (\<lambda>it. TEMPLATES cfg (if i_template it \<noteq> [] then i_template it else sel)
                            \<noteq> None) L"
  shows "k < length L \<Longrightarrow>
     generating L sel k (nexts cfg k s0)
     \<and> list_all (\<lambda>i. current_code (nexts cfg i s0)
                       = c_code (dm_generatedCodes (nexts cfg k s0) ! i)) [0..<k + 1]"
proof (induction k)
  case 0
  with assms(1) show ?case by (simp add: nexts_0 generating_def)
next
  case (Suc k)
  then have k: "k + 1 < length L" by simp
  with Suc.IH have g: "generating L sel k (nexts cfg k s0)"
    and c: "list_all (\<lambda>i. current_code (nexts cfg i s0)
                       = c_code (dm_generatedCodes (nexts cfg k s0) ! i)) [0..<k + 1]"
    by simp_all
  have t: "TEMPLATES cfg (if i_template (L ! (k + 1)) \<noteq> [] then i_template (L ! (k + 1))
                        else sel) \<noteq> None"
    using assms(2) k by (rule templates_nth)
  from dm_manualNext_generating [OF g k t]
  have g': "generating L sel (k + 1) (nexts cfg (Suc k) s0)"
    and tk: "take (k + 1) (dm_generatedCodes (nexts cfg (Suc k) s0))
              = dm_generatedCodes (nexts cfg k s0)"
    by (simp_all add: nexts_Suc)
  have old: "i < k + 1 \<Longrightarrow> dm_generatedCodes (nexts cfg (Suc k) s0) ! i
      = dm_generatedCodes (nexts cfg k s0) ! i" for i
    using tk by (metis nth_take)
  have "list_all (\<lambda>i. current_code (nexts cfg i s0)
                       = c_code (dm_generatedCodes (nexts cfg (Suc k) s0) ! i)) [0..<k + 1]"
    using c old by (simp add: list_all_iff)
  moreover have "current_code (nexts cfg (Suc k) s0)
      = c_code (dm_generatedCodes (nexts cfg (Suc k) s0) ! (k + 1))"
    using g' by (simp add: generating_def)
  ultimately show ?case using g' by simp
qed

lemma nexts_replaying:
  assumes "generating L sel 0 s0"
    and "list_all (\<lambda>it. TEMPLATES cfg (if i_template it \<noteq> [] then i_template it else sel)
                            \<noteq> None) L"
    and "L \<noteq> []"
  shows "replaying L (dm_generatedCodes (nexts cfg (length L - 1) s0))
           (history (nexts cfg (length L - 1) s0)) (seed (nexts cfg (length L - 1) s0))
           ((length L - 1 + m) mod length L) (nexts cfg (length L - 1 + m) s0)"
proof (induction m)
  case 0
  have l: "length L - 1 < length L" using assms(3) by (simp add: length_greater_0_conv)
  then have "generating L sel (length L - 1) (nexts cfg (length L - 1) s0)"
    using nexts_generating [OF assms(1,2)] by blast
  moreover have "length L - 1 + 1 = length L" using l by simp
  ultimately have "replaying L (dm_generatedCodes (nexts cfg (length L - 1) s0))
           (history (nexts cfg (length L - 1) s0)) (seed (nexts cfg (length L - 1) s0))
           (length L - 1) (nexts cfg (length L - 1) s0)"
    by (rule generating_replaying)
  with l show ?case by simp
next
  case (Suc m)
  have "((length L - 1 + m) mod length L + 1) mod length L
      = (length L - 1 + Suc m) mod length L"
    by (simp add: mod_Suc_eq)
  with dm_manualNext_replaying [OF Suc.IH, of cfg] show ?case
    by (simp add: nexts_Suc)
qed

lemma rotation_start:
  assumes "filter i_active items = L" and "L \<noteq> []"
    and "list_all (\<lambda>it. TEMPLATES cfg (if i_template it \<noteq> [] then i_template it
                                          else dm_selectedTemplate s) \<noteq> None) L"
  shows "fst (dm_startRotation cfg (Some items) s) = Inr ()"
    and "generating L (dm_selectedTemplate s) 0 (snd (dm_startRotation cfg (Some items) s))"
proof -
  have "0 < length L" using assms(2) by simp
  with assms(3) have "TEMPLATES cfg (if i_template (L ! 0) \<noteq> [] then i_template (L ! 0)
                        else dm_selectedTemplate s) \<noteq> None"
    by (rule templates_nth)
  with assms(1,2) have "fst (dm_startRotation cfg (Some items) s) = Inr ()
       \<and> generating L (dm_selectedTemplate s) 0 (snd (dm_startRotation cfg (Some items) s))"
    by (rule dm_startRotation_generating)
  then show "fst (dm_startRotation cfg (Some items) s) = Inr ()"
    and "generating L (dm_selectedTemplate s) 0 (snd (dm_startRotation cfg (Some items) s))"
    by simp_all
qed

lemma rotation_early:
  assumes "generating L sel 0 s0"
    and "list_all (\<lambda>it. TEMPLATES cfg (if i_template it \<noteq> [] then i_template it else sel)
                            \<noteq> None) L"
    and "k < length L"
    and "C = dm_generatedCodes (nexts cfg (length L - 1) s0)"
  shows "dm_codeHistoryIndex (nexts cfg k s0) = int k"
    and "current_code (nexts cfg k s0) = c_code (C ! k)"
    and "length (dm_generatedCodes (nexts cfg k s0)) = k + 1"
    and "c_rotationIdx (C ! k) = k \<and> c_barcode (C ! k) = i_barcode (L ! k)"
    and "length C = length L"
proof -
  have l: "length L - 1 < length L" "length L - 1 + 1 = length L" using assms(3) by simp_all
  have gk: "generating L sel k (nexts cfg k s0)"
    using nexts_generating [OF assms(1,2) assms(3)] by simp
  have gl: "generating L sel (length L - 1) (nexts cfg (length L - 1) s0)"
    and cl: "list_all (\<lambda>i. current_code (nexts cfg i s0) = c_code (C ! i))
               [0..<length L - 1 + 1]"
    using nexts_generating [OF assms(1,2) l(1)] by (simp_all add: assms(4))
  show "dm_codeHistoryIndex (nexts cfg k s0) = int k"
    and "length (dm_generatedCodes (nexts cfg k s0)) = k + 1"
    using gk by (simp_all add: generating_def)
  show "current_code (nexts cfg k s0) = c_code (C ! k)"
    using cl assms(3) unfolding l(2) by (simp add: list_all_iff)
  have "list_all (\<lambda>j. c_rotationIdx (C ! j) = j \<and> c_barcode (C ! j) = i_barcode (L ! j))
          [0..<length L - 1 + 1]"
    using gl by (simp add: generating_def assms(4))
  then show "c_rotationIdx (C ! k) = k \<and> c_barcode (C ! k) = i_barcode (L ! k)"
    using assms(3) unfolding l(2) by (simp add: list_all_iff)
  show "length C = length L"
    using gl l(2) by (simp add: generating_def assms(4))
qed

lemma rotation_late:
  assumes "generating L sel 0 s0"
    and "list_all (\<lambda>it. TEMPLATES cfg (if i_template it \<noteq> [] then i_template it else sel)
                            \<noteq> None) L"
    and "L \<noteq> []" and "length L \<le> k + 1"
    and "C = dm_generatedCodes (nexts cfg (length L - 1) s0)"
  shows "dm_codeHistoryIndex (nexts cfg k s0) = int (k mod length L)"
    and "current_code (nexts cfg k s0) = c_code (C ! (k mod length L))"
    and "dm_generatedCodes (nexts cfg k s0) = C"
    and "seed (nexts cfg k s0) = seed (nexts cfg (length L - 1) s0)"
    and "history (nexts cfg k s0) = history (nexts cfg (length L - 1) s0)"
    and "fst (dm_manualNext cfg (nexts cfg k s0)) = Inr ()"
proof -
  define m where "m = k + 1 - length L"
  have "0 < length L" using assms(3) by simp
  then have k: "length L - 1 + m = k" using assms(4) unfolding m_def by arith
  have r: "replaying L C (history (nexts cfg (length L - 1) s0))
           (seed (nexts cfg (length L - 1) s0)) (k mod length L) (nexts cfg k s0)"
    using nexts_replaying [OF assms(1,2,3), of m] unfolding k assms(5) .
  then show "dm_codeHistoryIndex (nexts cfg k s0) = int (k mod length L)"
    and "current_code (nexts cfg k s0) = c_code (C ! (k mod length L))"
    and "dm_generatedCodes (nexts cfg k s0) = C"
    and "seed (nexts cfg k s0) = seed (nexts cfg (length L - 1) s0)"
    and "history (nexts cfg k s0) = history (nexts cfg (length L - 1) s0)"
    by (simp_all add: replaying_def)
  show "fst (dm_manualNext cfg (nexts cfg k s0)) = Inr ()"
    using dm_manualNext_replaying [OF r] by simp
qed

lemma rotation_shown:
  assumes "generating L sel 0 s0"
    and "list_all (\<lambda>it. TEMPLATES cfg (if i_template it \<noteq> [] then i_template it else sel)
                            \<noteq> None) L"
    and "L \<noteq> []"
    and "C = dm_generatedCodes (nexts cfg (length L - 1) s0)"
  shows "dm_codeHistoryIndex (nexts cfg k s0) = int (k mod length L)"
    and "current_code (nexts cfg k s0) = c_code (C ! (k mod length L))"
    and "fst (dm_manualNext cfg (nexts cfg k s0)) = Inr ()"
proof -
  show "dm_codeHistoryIndex (nexts cfg k s0) = int (k mod length L)"
  proof (cases "k < length L")
    case True
    then show ?thesis using rotation_early(1) [OF assms(1,2) True assms(4)] by simp
  next
    case False
    then have "length L \<le> k + 1" by simp
    then show ?thesis by (rule rotation_late(1) [OF assms(1,2,3) _ assms(4)])
  qed
  show "current_code (nexts cfg k s0) = c_code (C ! (k mod length L))"
  proof (cases "k < length L")
    case True
    then show ?thesis using rotation_early(2) [OF assms(1,2) True assms(4)] by simp
  next
    case False
    then have "length L \<le> k + 1" by simp
    then show ?thesis by (rule rotation_late(2) [OF assms(1,2,3) _ assms(4)])
  qed
  show "fst (dm_manualNext cfg (nexts cfg k s0)) = Inr ()"
  proof (cases "k + 1 < length L")
    case True
    then have k: "k < length L" by simp
    have g: "generating L sel k (nexts cfg k s0)"
      using nexts_generating [OF assms(1,2) k] by simp
    have t: "TEMPLATES cfg (if i_template (L ! (k + 1)) \<noteq> [] then i_template (L ! (k + 1))
                        else sel) \<noteq> None"
      using assms(2) True by (rule templates_nth)
    show ?thesis using dm_manualNext_generating [OF g True t] by simp
  next
    case False
    then have "length L \<le> k + 1" by simp
    then show ?thesis by (rule rotation_late(6) [OF assms(1,2,3) _ assms(4)])
  qed
qed

lemma rotation_generates:
  assumes "generating L sel 0 s0"
    and "list_all (\<lambda>it. TEMPLATES cfg (if i_template it \<noteq> [] then i_template it else sel)
                            \<noteq> None) L"
    and "k + 1 < length L"
  shows "seed (nexts cfg k s0) < seed (nexts cfg (k + 1) s0)"
proof -
  have k: "k < length L" using assms(3) by simp
  have g: "generating L sel k (nexts cfg k s0)"
    using nexts_generating [OF assms(1,2) k] by simp
  have t: "TEMPLATES cfg (if i_template (L ! (k + 1)) \<noteq> [] then i_template (L ! (k + 1))
                        else sel) \<noteq> None"
    using assms(2,3) by (rule templates_nth)
  show ?thesis using dm_manualNext_generating [OF g assms(3) t] by (simp add: nexts_Suc)
qed

lemma nexts_stable:
  assumes "generating L sel 0 s0"
    and "list_all (\<lambda>it. TEMPLATES cfg (if i_template it \<noteq> [] then i_template it else sel)
                            \<noteq> None) L"
  shows "k < length L \<Longrightarrow> i \<le> k \<Longrightarrow>
     dm_generatedCodes (nexts cfg k s0) ! i = dm_generatedCodes (nexts cfg i s0) ! i"
proof (induction k)
  case 0
  then show ?case by simp
next
  case (Suc k)
  show ?case
  proof (cases "i = Suc k")
    case True
    then show ?thesis by simp
  next
    case False
    with Suc.prems have i: "i \<le> k" and k: "k + 1 < length L" by simp_all
    then have k': "k < length L" by simp
    have g: "generating L sel k (nexts cfg k s0)"
      using nexts_generating [OF assms(1,2) k'] by simp
    have t: "TEMPLATES cfg (if i_template (L ! (k + 1)) \<noteq> [] then i_template (L ! (k + 1))
                        else sel) \<noteq> None"
      using assms(2) k by (rule templates_nth)
    have "take (k + 1) (dm_generatedCodes (nexts cfg (Suc k) s0))
              = dm_generatedCodes (nexts cfg k s0)"
      using dm_manualNext_generating [OF g k t] by (simp add: nexts_Suc)
    moreover have "i < k + 1" using i by simp
    ultimately have "dm_generatedCodes (nexts cfg (Suc k) s0) ! i
        = dm_generatedCodes (nexts cfg k s0) ! i"
      by (metis nth_take)
    with Suc.IH [OF k' i] show ?thesis by simp
  qed
qed

lemma rotation_payload:
  assumes "generating L sel 0 s0"
    and "list_all (\<lambda>it. TEMPLATES cfg (if i_template it \<noteq> [] then i_template it else sel)
                            \<noteq> None) L"
    and "k + 1 < length L"
    and "C = dm_generatedCodes (nexts cfg (length L - 1) s0)"
    and "TEMPLATES cfg (if i_template (L ! (k + 1)) \<noteq> [] then i_template (L ! (k + 1))
                        else sel) = Some t"
  shows "current_code (nexts cfg (k + 1) s0)
         = t_generate t (seed (nexts cfg k s0))
             (if i_barcode (L ! (k + 1)) \<noteq> [] then i_barcode (L ! (k + 1))
              else fst (getNextDemoGtin cfg (nexts cfg k s0)))"
    and "c_templateName (C ! (k + 1)) = t_name t"
proof -
  have k: "k < length L" using assms(3) by simp
  have g: "generating L sel k (nexts cfg k s0)"
    using nexts_generating [OF assms(1,2) k] by simp
  note p = dm_manualNext_payload [OF g assms(3,5)]
  from p show "current_code (nexts cfg (k + 1) s0)
         = t_generate t (seed (nexts cfg k s0))
             (if i_barcode (L ! (k + 1)) \<noteq> [] then i_barcode (L ! (k + 1))
              else fst (getNextDemoGtin cfg (nexts cfg k s0)))"
    by (simp add: nexts_Suc)
  have l: "length L - 1 < length L" "k + 1 \<le> length L - 1" using assms(3) by simp_all
  have "C ! (k + 1) = dm_generatedCodes (nexts cfg (k + 1) s0) ! (k + 1)"
    unfolding assms(4) by (rule nexts_stable [OF assms(1,2) l])
  with p show "c_templateName (C ! (k + 1)) = t_name t"
    by (simp add: nexts_Suc)
qed

lemma rotation_first_payload:
  assumes "filter i_active items = L" and "L \<noteq> []"
    and "list_all (\<lambda>it. TEMPLATES cfg (if i_template it \<noteq> [] then i_template it
                                          else dm_selectedTemplate s) \<noteq> None) L"
    and "s0 = snd (dm_startRotation cfg (Some items) s)"
    and "C = dm_generatedCodes (nexts cfg (length L - 1) s0)"
    and "TEMPLATES cfg (if i_template (L ! 0) \<noteq> [] then i_template (L ! 0)
                        else dm_selectedTemplate s) = Some t"
  shows "current_code s0
         = t_generate t (seed s)
             (if i_barcode (L ! 0) \<noteq> [] then i_barcode (L ! 0)
              else fst (getNextDemoGtin cfg s))"
    and "c_templateName (C ! 0) = t_name t"
proof -
  note p = dm_startRotation_payload [OF assms(1,2,6)]
  from p show "current_code s0
         = t_generate t (seed s)
             (if i_barcode (L ! 0) \<noteq> [] then i_barcode (L ! 0)
              else fst (getNextDemoGtin cfg s))"
    by (simp add: assms(4))
  from p have g: "generating L (dm_selectedTemplate s) 0 s0" by (simp add: assms(4))
  have l: "length L - 1 < length L" using assms(2) by simp
  have "C ! 0 = dm_generatedCodes (nexts cfg 0 s0) ! 0"
    unfolding assms(5) by (rule nexts_stable [OF g assms(3) l]) simp
  with p show "c_templateName (C ! 0) = t_name t"
    by (simp add: nexts_0 assms(4))
qed

text \<open>
  Claim C1, amended. Let a rotation start from a folder with \<open>N\<close> active items \<open>L\<close>, the
  template of every active item (the selected template where the item names none) being
  in the table of templates, and let no timer tick come between the calls. The start
  generates and shows the code of the first item. Then no call of \<^verbatim>\<open>manualNext\<close> throws,
  and after \<open>k\<close> calls the code on display is the cached code \<open>k mod N\<close>, which belongs to
  the item \<open>k mod N\<close> of the list: the calls \<open>1\<close> to \<open>N - 1\<close> generate and show the codes of
  the second to the last item, each the string that the template of the item generates
  from the barcode of the item (the next demo GTIN if it has none) at the state of the
  random source before the call, each call adding one code to the cache and advancing the
  random source; from the call \<open>N\<close> on nothing is generated, the cache and the activity
  log stay as they are and the cache is replayed in a cycle. The \<open>N\<close> calls so visit every
  item once, in the order of the list continued cyclically after the first item; call \<open>N\<close>
  shows the code of the start again and call \<open>N + 1\<close> the very string of call \<open>1\<close>.
\<close>

theorem rotation_replay:
  assumes "filter i_active items = L" and "L \<noteq> []"
    and "list_all (\<lambda>it. TEMPLATES cfg (if i_template it \<noteq> [] then i_template it
                                          else dm_selectedTemplate s) \<noteq> None) L"
    and "s0 = snd (dm_startRotation cfg (Some items) s)"
    and "C = dm_generatedCodes (nexts cfg (length L - 1) s0)"
  shows "fst (dm_startRotation cfg (Some items) s) = Inr ()
     \<and> fst (dm_manualNext cfg (nexts cfg k s0)) = Inr ()
     \<and> length C = length L
     \<and> (j < length L \<longrightarrow> c_rotationIdx (C ! j) = j \<and> c_barcode (C ! j) = i_barcode (L ! j))
     \<and> dm_codeHistoryIndex (nexts cfg k s0) = int (k mod length L)
     \<and> current_code (nexts cfg k s0) = c_code (C ! (k mod length L))
     \<and> (k < length L \<longrightarrow> length (dm_generatedCodes (nexts cfg k s0)) = k + 1)
     \<and> (k + 1 < length L \<longrightarrow> seed (nexts cfg k s0) < seed (nexts cfg (k + 1) s0))
     \<and> (length L \<le> k + 1 \<longrightarrow>
          dm_generatedCodes (nexts cfg k s0) = C
          \<and> seed (nexts cfg k s0) = seed (nexts cfg (length L - 1) s0)
          \<and> history (nexts cfg k s0) = history (nexts cfg (length L - 1) s0))
     \<and> current_code (nexts cfg (length L + 1) s0) = current_code (nexts cfg 1 s0)
     \<and> current_code (nexts cfg (length L) s0) = current_code s0
     \<and> (TEMPLATES cfg (if i_template (L ! 0) \<noteq> [] then i_template (L ! 0)
                        else dm_selectedTemplate s) = Some t0 \<longrightarrow>
          current_code s0
            = t_generate t0 (seed s)
                (if i_barcode (L ! 0) \<noteq> [] then i_barcode (L ! 0)
                 else fst (getNextDemoGtin cfg s))
          \<and> c_templateName (C ! 0) = t_name t0)
     \<and> (k + 1 < length L
          \<and> TEMPLATES cfg (if i_template (L ! (k + 1)) \<noteq> [] then i_template (L ! (k + 1))
                            else dm_selectedTemplate s) = Some t \<longrightarrow>
          current_code (nexts cfg (k + 1) s0)
            = t_generate t (seed (nexts cfg k s0))
                (if i_barcode (L ! (k + 1)) \<noteq> [] then i_barcode (L ! (k + 1))
                 else fst (getNextDemoGtin cfg (nexts cfg k s0)))
          \<and> c_templateName (C ! (k + 1)) = t_name t)"
proof -
  note st = rotation_start [OF assms(1,2,3)]
  have g: "generating L (dm_selectedTemplate s) 0 s0"
    unfolding assms(4) by (rule st(2))
  note sh = rotation_shown [OF g assms(3) assms(2) assms(5)]
  have l0: "0 < length L" using assms(2) by simp
  have "current_code (nexts cfg (length L + 1) s0) = c_code (C ! ((length L + 1) mod length L))"
    by (rule sh(2))
  moreover have "current_code (nexts cfg 1 s0) = c_code (C ! (1 mod length L))"
    by (rule sh(2))
  moreover have "(length L + 1) mod length L = 1 mod length L"
    by (rule mod_add_self1)
  ultimately have a: "current_code (nexts cfg (length L + 1) s0) = current_code (nexts cfg 1 s0)"
    by (simp only:)
  have "current_code (nexts cfg (length L) s0) = c_code (C ! (length L mod length L))"
    by (rule sh(2))
  moreover have "current_code (nexts cfg 0 s0) = c_code (C ! (0 mod length L))"
    by (rule sh(2))
  ultimately have b: "current_code (nexts cfg (length L) s0) = current_code s0"
    by (simp add: nexts_0)
  have c: "length C = length L"
    by (rule rotation_early(5) [OF g assms(3) l0 assms(5)])
  have first: "TEMPLATES cfg (if i_template (L ! 0) \<noteq> [] then i_template (L ! 0)
                        else dm_selectedTemplate s) = Some t0 \<longrightarrow>
          current_code s0
            = t_generate t0 (seed s)
                (if i_barcode (L ! 0) \<noteq> [] then i_barcode (L ! 0)
                 else fst (getNextDemoGtin cfg s))
          \<and> c_templateName (C ! 0) = t_name t0"
    using rotation_first_payload [OF assms, of t0] by blast
  have later: "k + 1 < length L
          \<and> TEMPLATES cfg (if i_template (L ! (k + 1)) \<noteq> [] then i_template (L ! (k + 1))
                            else dm_selectedTemplate s) = Some t \<longrightarrow>
          current_code (nexts cfg (k + 1) s0)
            = t_generate t (seed (nexts cfg k s0))
                (if i_barcode (L ! (k + 1)) \<noteq> [] then i_barcode (L ! (k + 1))
                 else fst (getNextDemoGtin cfg (nexts cfg k s0)))
          \<and> c_templateName (C ! (k + 1)) = t_name t"
    using rotation_payload [OF g assms(3) _ assms(5), of k t] by blast
  have rest: "fst (dm_startRotation cfg (Some items) s) = Inr ()
     \<and> fst (dm_manualNext cfg (nexts cfg k s0)) = Inr ()
     \<and> length C = length L
     \<and> (j < length L \<longrightarrow> c_rotationIdx (C ! j) = j \<and> c_barcode (C ! j) = i_barcode (L ! j))
     \<and> dm_codeHistoryIndex (nexts cfg k s0) = int (k mod length L)
     \<and> current_code (nexts cfg k s0) = c_code (C ! (k mod length L))
     \<and> (k < length L \<longrightarrow> length (dm_generatedCodes (nexts cfg k s0)) = k + 1)
     \<and> (k + 1 < length L \<longrightarrow> seed (nexts cfg k s0) < seed (nexts cfg (k + 1) s0))
     \<and> (length L \<le> k + 1 \<longrightarrow>
          dm_generatedCodes (nexts cfg k s0) = C
          \<and> seed (nexts cfg k s0) = seed (nexts cfg (length L - 1) s0)
          \<and> history (nexts cfg k s0) = history (nexts cfg (length L - 1) s0))
     \<and> current_code (nexts cfg (length L + 1) s0) = current_code (nexts cfg 1 s0)
     \<and> current_code (nexts cfg (length L) s0) = current_code s0"
    using st(1) sh [of k] a b c
      rotation_early(4) [OF g assms(3) _ assms(5), of j]
      rotation_early(3) [OF g assms(3) _ assms(5), of k]
      rotation_generates [OF g assms(3), of k]
      rotation_late(3,4,5) [OF g assms(3) assms(2) _ assms(5), of k]
    by simp
  from rest first later show ?thesis by blast
qed

lemma mod_two_examples:
  "(3 :: nat) mod Suc (Suc 0) = Suc 0" "(2 :: nat) mod Suc (Suc 0) = 0"
  "Suc 0 mod Suc (Suc 0) = Suc 0" "Suc (Suc (Suc 0)) mod Suc (Suc 0) = Suc 0"
  by presburger+

lemma example_folder_active:
  "filter i_active example_folder
     = [\<lparr>i_barcode = ''4810099003310'', i_template = ''type1'', i_active = True\<rparr>,
        \<lparr>i_barcode = ''5901234123457'', i_template = [], i_active = True\<rparr>]"
  by (simp add: example_folder_def)

lemma example_folder_templates:
  "list_all (\<lambda>it. TEMPLATES example_config
       (if i_template it \<noteq> [] then i_template it else dm_selectedTemplate idle_state) \<noteq> None)
     [\<lparr>i_barcode = ''4810099003310'', i_template = ''type1'', i_active = True\<rparr>,
      \<lparr>i_barcode = ''5901234123457'', i_template = [], i_active = True\<rparr>]"
  by (simp add: example_config_def idle_state_def)

lemma example_lookup:
  "TEMPLATES example_config ''type1'' = Some example_template"
  "dm_selectedTemplate idle_state = ''type1''" "seed idle_state = 0"
  by (simp_all add: example_config_def idle_state_def)

lemma show_nat_Suc_0: "show_nat (Suc 0) = ''1''"
  by (simp add: show_nat_single digit_char_def)

lemma example_template_codes:
  "t_generate example_template 0 ''4810099003310'' = ''010481009900331021000000''"
  "t_generate example_template (Suc 0) ''5901234123457'' = ''010590123412345721000001''"
  by (simp_all add: example_template_def padZeros_def show_nat_0 show_nat_Suc_0 replicate_numeral)

lemma example_start_seed:
  "seed (snd (dm_startRotation example_config (Some example_folder) idle_state)) = 1"
  by (simp add: dm_startRotation_def example_folder_def Let_def and_then_def
      generateAndDisplay_def primary_code_def secondary_code_def generateDM_def
      getActiveDoubleScanMode_def idle_state_def example_config_def addToHistory_def
      cache_code_def show_codes_def updateCodeText_def dm_startTimer_def dm_stopTimer_def)

theorem rotation_replay_witness:
  "fst (dm_startRotation example_config (Some example_folder) idle_state) = Inr ()
   \<and> current_code (snd (dm_startRotation example_config (Some example_folder) idle_state))
     = ''010481009900331021000000''
   \<and> current_code
        (nexts example_config 1 (snd (dm_startRotation example_config (Some example_folder)
           idle_state)))
     = ''010590123412345721000001''
   \<and> current_code
        (nexts example_config 2 (snd (dm_startRotation example_config (Some example_folder)
           idle_state)))
     = ''010481009900331021000000''
   \<and> current_code
        (nexts example_config 3 (snd (dm_startRotation example_config (Some example_folder)
           idle_state)))
     = ''010590123412345721000001''
   \<and> history
        (nexts example_config 3 (snd (dm_startRotation example_config (Some example_folder)
           idle_state)))
     = history
        (nexts example_config 1 (snd (dm_startRotation example_config (Some example_folder)
           idle_state)))"
proof -
  let ?L = "[\<lparr>i_barcode = ''4810099003310'', i_template = ''type1'', i_active = True\<rparr>,
        \<lparr>i_barcode = ''5901234123457'', i_template = [], i_active = True\<rparr>]"
  let ?s0 = "snd (dm_startRotation example_config (Some example_folder) idle_state)"
  have ne: "?L \<noteq> []" by simp
  have len3: "length ?L + 1 = 3" and len1: "length ?L - 1 = 1" and len2: "length ?L = 2"
    by simp_all
  note r = rotation_replay [OF example_folder_active ne example_folder_templates refl refl,
      where k = 3 and j = 0 and t = example_template and ?t0.0 = example_template]
  note r0 = rotation_replay [OF example_folder_active ne example_folder_templates refl refl,
      where k = 0 and j = 0 and t = example_template and ?t0.0 = example_template]
  from r have a: "fst (dm_startRotation example_config (Some example_folder) idle_state) = Inr ()"
    by blast
  from r have "current_code (nexts example_config (length ?L + 1) ?s0)
      = current_code (nexts example_config 1 ?s0)"
    by blast
  then have b: "current_code (nexts example_config 3 ?s0)
      = current_code (nexts example_config 1 ?s0)"
    unfolding len3 .
  from r have "current_code (nexts example_config (length ?L) ?s0) = current_code ?s0"
    by blast
  then have b2: "current_code (nexts example_config 2 ?s0) = current_code ?s0"
    unfolding len2 .
  from r have "length ?L \<le> 3 + 1 \<longrightarrow>
          dm_generatedCodes (nexts example_config 3 ?s0)
            = dm_generatedCodes (nexts example_config (length ?L - 1) ?s0)
          \<and> seed (nexts example_config 3 ?s0) = seed (nexts example_config (length ?L - 1) ?s0)
          \<and> history (nexts example_config 3 ?s0)
            = history (nexts example_config (length ?L - 1) ?s0)"
    by blast
  then have c: "history (nexts example_config 3 ?s0) = history (nexts example_config 1 ?s0)"
    unfolding len1 by simp
  from r0 have "TEMPLATES example_config
          (if i_template (?L ! 0) \<noteq> [] then i_template (?L ! 0)
           else dm_selectedTemplate idle_state) = Some example_template \<longrightarrow>
      current_code ?s0
        = t_generate example_template (seed idle_state)
            (if i_barcode (?L ! 0) \<noteq> [] then i_barcode (?L ! 0)
             else fst (getNextDemoGtin example_config idle_state))
      \<and> c_templateName (dm_generatedCodes (nexts example_config (length ?L - 1) ?s0) ! 0)
        = t_name example_template"
    by blast
  then have d: "current_code ?s0 = ''010481009900331021000000''"
    by (simp add: example_lookup example_template_codes)
  from r0 have "0 + 1 < length ?L
        \<and> TEMPLATES example_config
            (if i_template (?L ! (0 + 1)) \<noteq> [] then i_template (?L ! (0 + 1))
             else dm_selectedTemplate idle_state) = Some example_template \<longrightarrow>
      current_code (nexts example_config (0 + 1) ?s0)
        = t_generate example_template (seed (nexts example_config 0 ?s0))
            (if i_barcode (?L ! (0 + 1)) \<noteq> [] then i_barcode (?L ! (0 + 1))
             else fst (getNextDemoGtin example_config (nexts example_config 0 ?s0)))
      \<and> c_templateName (dm_generatedCodes (nexts example_config (length ?L - 1) ?s0) ! (0 + 1))
        = t_name example_template"
    by blast
  then have e: "current_code (nexts example_config 1 ?s0) = ''010590123412345721000001''"
    by (simp add: example_lookup nexts_0 example_start_seed example_template_codes)
  from a b b2 c d e show ?thesis by simp
qed

text \<open>
  Claim C1 as stated fails in the order of the visits: with two active items the first
  call shows the second item and the second call the first.
\<close>

theorem rotation_order_counterexample:
  "dm_codeHistoryIndex
     (nexts example_config 1 (snd (dm_startRotation example_config (Some example_folder)
        idle_state))) = 1
   \<and> dm_codeHistoryIndex
     (nexts example_config 2 (snd (dm_startRotation example_config (Some example_folder)
        idle_state))) = 0
   \<and> c_barcode (dm_generatedCodes
        (nexts example_config 2 (snd (dm_startRotation example_config (Some example_folder)
           idle_state))) ! 1) = ''5901234123457''
   \<and> c_barcode (dm_generatedCodes
        (nexts example_config 2 (snd (dm_startRotation example_config (Some example_folder)
           idle_state))) ! 0) = ''4810099003310''"
proof -
  let ?L = "[\<lparr>i_barcode = ''4810099003310'', i_template = ''type1'', i_active = True\<rparr>,
        \<lparr>i_barcode = ''5901234123457'', i_template = [], i_active = True\<rparr>]"
  let ?s0 = "snd (dm_startRotation example_config (Some example_folder) idle_state)"
  have ne: "?L \<noteq> []" by simp
  have g: "generating ?L (dm_selectedTemplate idle_state) 0 ?s0"
    by (rule rotation_start(2) [OF example_folder_active ne example_folder_templates])
  note sh = rotation_shown(1) [OF g example_folder_templates ne refl]
  note cs = rotation_late(3) [OF g example_folder_templates ne _ refl, of 2]
  have "dm_codeHistoryIndex (nexts example_config 1 ?s0) = 1"
    using sh [of 1] by (simp add: mod_two_examples)
  moreover have "dm_codeHistoryIndex (nexts example_config 2 ?s0) = 0"
    using sh [of 2] by (simp add: mod_two_examples)
  moreover have "c_barcode (dm_generatedCodes (nexts example_config 2 ?s0) ! 1)
      = ''5901234123457''"
    using rotation_early(4) [OF g example_folder_templates _ refl, of 1] cs by simp
  moreover have "c_barcode (dm_generatedCodes (nexts example_config 2 ?s0) ! 0)
      = ''4810099003310''"
    using rotation_early(4) [OF g example_folder_templates _ refl, of 0] cs by simp
  ultimately show ?thesis by simp
qed

end
